theory Spec2Isabelle
  imports Complex_Main
begin

section \<open>Values shared by the modules\<close>

text \<open>
  The game keeps its tunables in the module \<^verbatim>\<open>app/config\<close>, which the other modules
  only read. The fields used by \<^verbatim>\<open>block.js\<close> and \<^verbatim>\<open>score.js\<close> are collected in a
  record and every operation takes it as a parameter: \<^verbatim>\<open>config.color.unbreakable\<close>,
  \<^verbatim>\<open>config.color.available\<close> (one palette per level), \<^verbatim>\<open>config.points\<close> (one
  exponent per level, any number) and \<^verbatim>\<open>config.checkpoints\<close>. Colours, thresholds and
  clear counts are non-negative integers.
\<close>

record config =
  color_unbreakable :: nat
  color_available :: "nat list list"
  points :: "real list"
  checkpoints :: "nat list"

text \<open>What a JavaScript operation can throw in the modelled code.\<close>

datatype error = TypeError | InvalidDirection string

text \<open>
  An operation either returns or throws. What it wrote before throwing stays
  written, so both outcomes carry the state.
\<close>

datatype 'a outcome = Done 'a | Threw error 'a

fun state_of :: "'a outcome \<Rightarrow> 'a" where
  "state_of (Done s) = s"
| "state_of (Threw e s) = s"

fun returned :: "'a outcome \<Rightarrow> bool" where
  "returned (Done s) = True"
| "returned (Threw e s) = False"

text \<open>Reading \<^verbatim>\<open>xs[i]\<close> from an array: \<^verbatim>\<open>undefined\<close> past the end.\<close>

definition lookup :: "'a list \<Rightarrow> nat \<Rightarrow> 'a option" where
  "lookup xs i = (if i < length xs then Some (xs ! i) else None)"

text \<open>Decimal digits of a non-negative integer.\<close>

fun digits :: "nat \<Rightarrow> string" where
  "digits n =
     (if n < 10 then [''0123456789'' ! n]
      else digits (n div 10) @ [''0123456789'' ! (n mod 10)])"

declare digits.simps [simp del]

section \<open>The score module\<close>

subsection \<open>JavaScript numbers\<close>

text \<open>
  Every number of \<^verbatim>\<open>score.js\<close> is a double. The score is a sum of results of
  \<^verbatim>\<open>Math.floor\<close>, so it is a non-negative integer that a double can hold,
  \<^verbatim>\<open>Infinity\<close> or \<^verbatim>\<open>NaN\<close>. A double holds 53 significant bits: the integers below
  \<open>2^53\<close> exactly, and above them the multiples of a power of two. \<open>exp53 n\<close> is the
  exponent of that power for the magnitude of \<open>n\<close>, and \<open>round53 n\<close> is the nearest
  such multiple, a tie going to the even one, as IEEE 754 addition rounds.
\<close>

datatype number = Num nat | Infinity | NaN

fun exp53 :: "nat \<Rightarrow> nat" where
  "exp53 n = (if n < 2 ^ 53 then 0 else Suc (exp53 (n div 2)))"

declare exp53.simps [simp del]

definition round53 :: "nat \<Rightarrow> nat" where
  "round53 n =
     (let u = 2 ^ exp53 n; q = n div u; r = n mod u
      in if 2 * r < u \<or> (2 * r = u \<and> even q) then q * u else (q + 1) * u)"

text \<open>The double for an integer result: rounded, and \<^verbatim>\<open>Infinity\<close> from \<open>2^1024\<close> on.\<close>

definition to_number :: "nat \<Rightarrow> number" where
  "to_number n = (let r = round53 n in if r < 2 ^ 1024 then Num r else Infinity)"

text \<open>\<^verbatim>\<open>+=\<close> on two such numbers.\<close>

fun plus_number :: "number \<Rightarrow> number \<Rightarrow> number" where
  "plus_number NaN b = NaN"
| "plus_number a NaN = NaN"
| "plus_number Infinity b = Infinity"
| "plus_number a Infinity = Infinity"
| "plus_number (Num a) (Num b) = to_number (a + b)"

text \<open>\<^verbatim>\<open>this.current >= config.checkpoints[i]\<close>.\<close>

fun ge_number :: "number \<Rightarrow> nat \<Rightarrow> bool" where
  "ge_number (Num a) b = (b \<le> a)"
| "ge_number Infinity b = True"
| "ge_number NaN b = False"

text \<open>
  What \<^verbatim>\<open>Math.pow\<close> returns for a non-negative base: a double \<open>p / 2^q\<close>, which
  need not be an integer, \<^verbatim>\<open>Infinity\<close> or \<^verbatim>\<open>NaN\<close>.
\<close>

datatype power = Power nat nat | PowerInfinity | PowerNaN

text \<open>
  The language fixes \<^verbatim>\<open>Math.pow\<close> only in special cases and leaves the other results
  to the implementation ("implementation-approximated"); numbers from \<open>10^21\<close> on
  print in exponent notation. Both are taken from the engine the code runs on.
\<close>

record engine =
  pow_impl :: "nat \<Rightarrow> real \<Rightarrow> power"
  show_big :: "nat \<Rightarrow> string"

text \<open>
  \<^verbatim>\<open>Math.pow(clearCount, config.points[this.level])\<close>. The fixed cases: an exponent
  that is \<^verbatim>\<open>undefined\<close> converts to \<^verbatim>\<open>NaN\<close> and gives \<^verbatim>\<open>NaN\<close>; the exponent 0
  gives 1; the base 0 gives 0 for a positive and \<^verbatim>\<open>Infinity\<close> for a negative exponent.
\<close>

definition Math_pow :: "engine \<Rightarrow> nat \<Rightarrow> real option \<Rightarrow> power" where
  "Math_pow eng c ex =
     (case ex of
        None \<Rightarrow> PowerNaN
      | Some e \<Rightarrow>
          if e = 0 then Power 1 0
          else if c = 0 then (if 0 < e then Power 0 0 else PowerInfinity)
          else pow_impl eng c e)"

fun Math_floor :: "power \<Rightarrow> number" where
  "Math_floor (Power p q) = Num (p div 2 ^ q)"
| "Math_floor PowerInfinity = Infinity"
| "Math_floor PowerNaN = NaN"

text \<open>A number in a string concatenation.\<close>

fun show_number :: "engine \<Rightarrow> number \<Rightarrow> string" where
  "show_number eng (Num n) = (if n < 10 ^ 21 then digits n else show_big eng n)"
| "show_number eng Infinity = ''Infinity''"
| "show_number eng NaN = ''NaN''"

subsection \<open>The Score object\<close>

text \<open>
  The calls \<^verbatim>\<open>newLevel\<close> makes on its collaborators (the generator and its centre
  quad, the music, the background, the grid), in the order they are made.
\<close>

datatype call =
    SetLevel nat
  | MusicPlay string
  | NewColor "nat option"
  | Breakable
  | ClearAll
  | ResetMiddle
  | Redraw
  | ToCenter
  | Unbreakable

text \<open>
  The \<^verbatim>\<open>Score\<close> object once \<^verbatim>\<open>init\<close> has given it a text board: the text shown, the
  cumulative score, the level, and the calls made so far on the collaborators.
\<close>

record score =
  board :: string
  current :: number
  level :: nat
  calls :: "call list"

definition Score :: score where
  "Score = \<lparr>board = ''Level: 1'' @ [CHR 0x0A] @ ''Score: 0'',
            current = Num 0, level = 0, calls = []\<rparr>"

text \<open>The scoreboard text: \<^verbatim>\<open>"Level: " + levelDisplay + "\nScore: " + this.current\<close>.\<close>

definition boardText :: "engine \<Rightarrow> nat \<Rightarrow> number \<Rightarrow> string" where
  "boardText eng levelDisplay cur =
     ''Level: '' @ digits levelDisplay @ [CHR 0x0A] @ ''Score: '' @ show_number eng cur"

text \<open>
  \<^verbatim>\<open>calcLevel\<close>: the loop runs \<open>i\<close> from \<^verbatim>\<open>checkpoints.length - 1\<close> down to 0; the
  argument here is \<open>i + 1\<close>.
\<close>

primrec calcLevel_from :: "config \<Rightarrow> score \<Rightarrow> nat \<Rightarrow> nat" where
  "calcLevel_from cfg s 0 = level s"
| "calcLevel_from cfg s (Suc i) =
     (if ge_number (current s) (checkpoints cfg ! i) then i + 1
      else calcLevel_from cfg s i)"

definition calcLevel :: "config \<Rightarrow> score \<Rightarrow> nat" where
  "calcLevel cfg s = calcLevel_from cfg s (length (checkpoints cfg))"

text \<open>
  \<^verbatim>\<open>newLevel\<close>. Reading \<^verbatim>\<open>config.color.available[this.level][0]\<close> throws when there
  is no palette for the level, after the generator and the music have been called.
\<close>

definition newLevel :: "config \<Rightarrow> score \<Rightarrow> score outcome" where
  "newLevel cfg s =
     (let s1 = s\<lparr>calls := calls s @ [SetLevel (level s)]\<rparr>;
          s2 = s1\<lparr>calls := calls s1 @ [MusicPlay (''background'' @ digits (level s + 1))]\<rparr>
      in case lookup (color_available cfg) (level s) of
           None \<Rightarrow> Threw TypeError s2
         | Some palette \<Rightarrow>
             Done (s2\<lparr>calls := calls s2 @
                     [NewColor (lookup palette 0), Breakable, ClearAll, ResetMiddle,
                      Redraw, ToCenter, Unbreakable]\<rparr>))"

definition update :: "engine \<Rightarrow> config \<Rightarrow> nat \<Rightarrow> score \<Rightarrow> score outcome" where
  "update eng cfg clearCount s =
     (let pts = Math_pow eng clearCount (lookup (points cfg) (level s));
          levelDisplay = level s + 1;
          s1 = s\<lparr>current := plus_number (current s) (Math_floor pts)\<rparr>;
          s2 = s1\<lparr>board := boardText eng levelDisplay (current s1)\<rparr>;
          new = calcLevel cfg s2
      in if level s2 < new then newLevel cfg (s2\<lparr>level := new\<rparr>) else Done s2)"

text \<open>A history of \<^verbatim>\<open>update\<close> calls; a call that throws leaves its state behind.\<close>

definition updates :: "engine \<Rightarrow> config \<Rightarrow> nat list \<Rightarrow> score \<Rightarrow> score" where
  "updates eng cfg cs s = foldl (\<lambda>s c. state_of (update eng cfg c s)) s cs"


text \<open>
  The order of the level-transition effects as the specification lists them: notify
  the generator, switch the music, switch the background to the first colour of the
  new palette, make the centre quad breakable, clear the grid, reset the middle,
  then redraw, re-centre and re-mark the centre quad unbreakable.
\<close>

definition transition_calls :: "config \<Rightarrow> nat \<Rightarrow> call list" where
  "transition_calls cfg l =
     [SetLevel l,
      MusicPlay (''background'' @ digits (l + 1)),
      NewColor (case lookup (color_available cfg) l of None \<Rightarrow> None | Some palette \<Rightarrow> lookup palette 0),
      Breakable, ClearAll, ResetMiddle, Redraw, ToCenter, Unbreakable]"

text \<open>
  Invariants of the score state. \<open>representable\<close>: the integer is one a double
  holds, and \<open>sound\<close>: the score is such a number. \<open>anchored\<close>: a level above 0 was
  earned, its checkpoint is satisfied by the score (or the score has become
  \<^verbatim>\<open>NaN\<close>). \<open>settled\<close>: recomputing the level finds nothing higher.
\<close>

definition representable :: "nat \<Rightarrow> bool" where
  "representable n \<longleftrightarrow> n mod 2 ^ exp53 n = 0"

definition sound :: "score \<Rightarrow> bool" where
  "sound s \<longleftrightarrow> (case current s of Num a \<Rightarrow> representable a \<and> a < 2 ^ 1024 | _ \<Rightarrow> True)"

definition anchored :: "config \<Rightarrow> score \<Rightarrow> bool" where
  "anchored cfg s \<longleftrightarrow>
     level s = 0 \<or> current s = NaN \<or>
     (level s \<le> length (checkpoints cfg) \<and>
      ge_number (current s) (checkpoints cfg ! (level s - 1)))"

definition settled :: "config \<Rightarrow> score \<Rightarrow> bool" where
  "settled cfg s \<longleftrightarrow> calcLevel cfg s \<le> level s"

text \<open>
  A configuration and an engine to evaluate on: the checkpoints of the
  specification's scenario; \<^verbatim>\<open>Math.pow\<close> exact for the exponent 1 and giving the double
  nearest to \<open>20^1.5\<close>, which is \<open>6293971818901970 / 2^46\<close>, just above 89.44.
\<close>

definition cfg0 :: config where
  "cfg0 = \<lparr>color_unbreakable = 0x444444,
           color_available = [[0xFF0000, 0x00FF00], [0x0000FF, 0xFFFF00]],
           points = [1, 2], checkpoints = [100, 300, 600]\<rparr>"

definition engine0 :: engine where
  "engine0 = \<lparr>pow_impl = (\<lambda>c e. if e = 1 then Power c 0
                               else if c = 20 \<and> e = 3 / 2 then Power 6293971818901970 46
                               else PowerNaN),
              show_big = (\<lambda>n. ''1e+21'')\<rparr>"

text \<open>A configuration whose only exponent is 0 and whose only checkpoint is 1.\<close>

definition cfg1 :: config where
  "cfg1 = \<lparr>color_unbreakable = 0x444444, color_available = [[0xFF0000], [0x0000FF]],
           points = [0], checkpoints = [1]\<rparr>"

section \<open>The block module\<close>

text \<open>
  A \<^verbatim>\<open>Block\<close> is an object with identity: the grid holds references to blocks, and
  \<^verbatim>\<open>clear\<close> compares references (\<^verbatim>\<open>destroyed.indexOf(block)\<close>). Blocks live in a store
  indexed by reference. The fields are those the constructor sets, without the
  Phaser graphics object, and \<^verbatim>\<open>coord\<close>, which is \<^verbatim>\<open>undefined\<close> until the block is
  dropped. A coordinate is the pair \<open>(x, y)\<close>.
\<close>

type_synonym bid = nat

type_synonym coord = "int \<times> int"

text \<open>
  \<^verbatim>\<open>this.coord\<close> refers to a coordinate object: \<^verbatim>\<open>drop\<close> stores the object it was
  given (\<^verbatim>\<open>this.coord = coord\<close>) and \<^verbatim>\<open>slide\<close> changes that object in place
  (\<^verbatim>\<open>this.coord.y -= 1\<close>), so two blocks that were dropped with one object share it.
  Coordinate objects are named by a reference.
\<close>

type_synonym oid = nat

record block =
  direction :: string
  position :: int
  offset :: int
  color :: nat
  visible :: bool
  manualPosition :: bool
  coord :: "coord option"

text \<open>
  \<^verbatim>\<open>grid.contents\<close> is an array of rows indexed \<^verbatim>\<open>contents[y][x]\<close>. An array is read
  and written by property: an index that was never set reads \<^verbatim>\<open>undefined\<close>, and so
  does a cell that holds no block. The module \<^verbatim>\<open>app/grid\<close> that builds the array is not
  part of the sources, so the extent of the grid is whatever rows and cells exist.
\<close>

text \<open>
  The state: the blocks, the grid, the coordinate objects by reference
  (\<open>objects\<close>) and the object each block's \<^verbatim>\<open>coord\<close> refers to (\<open>coordObject\<close>,
  \<open>None\<close> for \<^verbatim>\<open>undefined\<close>). The field \<open>coord\<close> of a block of the store is what
  \<^verbatim>\<open>this.coord\<close> reads through that reference; \<open>coherent\<close> says so.
\<close>

record world =
  blocks :: "bid \<Rightarrow> block"
  contents :: "int \<rightharpoonup> (int \<rightharpoonup> bid)"
  objects :: "oid \<Rightarrow> coord"
  coordObject :: "bid \<Rightarrow> oid option"

definition coherent :: "world \<Rightarrow> bool" where
  "coherent w \<longleftrightarrow> (\<forall>b. coord (blocks w b) = map_option (objects w) (coordObject w b))"

text \<open>
  The constructor. \<^verbatim>\<open>color || config.color.unbreakable\<close> takes the sentinel when the
  argument is omitted (\<open>None\<close>) or falsy, which for a number is 0.
\<close>

definition Block :: "config \<Rightarrow> string \<Rightarrow> int \<Rightarrow> int \<Rightarrow> nat option \<Rightarrow> block" where
  "Block cfg dir pos off col =
     \<lparr>direction = dir, position = pos, offset = off + 3,
      color = (case col of
                 None \<Rightarrow> color_unbreakable cfg
               | Some c \<Rightarrow> if c = 0 then color_unbreakable cfg else c),
      visible = False, manualPosition = False, coord = None\<rparr>"

text \<open>\<^verbatim>\<open>Block.prototype.unbreakable\<close>, without the redraw.\<close>

definition unbreakable :: "config \<Rightarrow> block \<Rightarrow> block" where
  "unbreakable cfg b = b\<lparr>color := color_unbreakable cfg\<rparr>"

subsection \<open>slide\<close>

text \<open>\<^verbatim>\<open>String.prototype.toLowerCase\<close> on the letters A to Z.\<close>

definition lower_char :: "char \<Rightarrow> char" where
  "lower_char c =
     (case map_of (zip ''ABCDEFGHIJKLMNOPQRSTUVWXYZ'' ''abcdefghijklmnopqrstuvwxyz'') c of
        Some l \<Rightarrow> l
      | None \<Rightarrow> c)"

definition toLowerCase :: "string \<Rightarrow> string" where
  "toLowerCase s = map lower_char s"

text \<open>
  One branch of the \<^verbatim>\<open>switch\<close>: \<^verbatim>\<open>this.coord.x\<close> or \<^verbatim>\<open>this.coord.y\<close> is changed by one;
  on a block that was never dropped reading \<^verbatim>\<open>this.coord.y\<close> throws.
\<close>

definition move :: "int \<times> int \<Rightarrow> block \<Rightarrow> block outcome" where
  "move d b =
     (case coord b of
        None \<Rightarrow> Threw TypeError b
      | Some (x, y) \<Rightarrow> Done (b\<lparr>coord := Some (x + fst d, y + snd d)\<rparr>))"

definition slide :: "string \<Rightarrow> block \<Rightarrow> block outcome" where
  "slide dir b =
     (let d = toLowerCase dir
      in if d = ''top'' then move (0, -1) b
         else if d = ''bottom'' then move (0, 1) b
         else if d = ''left'' then move (-1, 0) b
         else if d = ''right'' then move (1, 0) b
         else Threw (InvalidDirection (''Invalid argument to Block.slide: '' @ dir)) b)"

subsection \<open>drop and destroy\<close>

text \<open>The block reference in \<^verbatim>\<open>grid.contents[y][x]\<close>, for a row that exists or not.\<close>

definition slot :: "world \<Rightarrow> coord \<Rightarrow> bid option" where
  "slot w c = (case contents w (snd c) of None \<Rightarrow> None | Some row \<Rightarrow> row (fst c))"


text \<open>
  \<^verbatim>\<open>destroy\<close>: \<^verbatim>\<open>grid.contents[this.coord.y][this.coord.x] = undefined\<close>. It throws on
  a block without a coordinate and on a row that does not exist.
\<close>

definition destroy :: "bid \<Rightarrow> world \<Rightarrow> world outcome" where
  "destroy b w =
     (case coord (blocks w b) of
        None \<Rightarrow> Threw TypeError w
      | Some (x, y) \<Rightarrow>
          (case contents w y of
             None \<Rightarrow> Threw TypeError w
           | Some row \<Rightarrow> Done (w\<lparr>contents := (contents w)(y \<mapsto> row(x := None))\<rparr>)))"



text \<open>
  Occupancy consistency: every slot that holds a block reference holds a block
  whose own coordinate is the slot's key.
\<close>

definition consistent :: "world \<Rightarrow> bool" where
  "consistent w \<longleftrightarrow> (\<forall>c b. slot w c = Some b \<longrightarrow> coord (blocks w b) = Some c)"






subsection \<open>clear\<close>

text \<open>
  \<^verbatim>\<open>grid.contents[coord.y][coord.x]\<close> as an expression: indexing the row that does not
  exist throws, an index the row does not have reads \<^verbatim>\<open>undefined\<close>.
\<close>

definition cell :: "world \<Rightarrow> coord \<Rightarrow> error + bid option" where
  "cell w c = (case contents w (snd c) of None \<Rightarrow> Inl TypeError | Some row \<Rightarrow> Inr (row (fst c)))"

text \<open>\<^verbatim>\<open>matchingColor\<close>: \<^verbatim>\<open>block && (block.color == this.color)\<close>.\<close>

definition matchingColor :: "world \<Rightarrow> bid \<Rightarrow> bid option \<Rightarrow> bool" where
  "matchingColor w this blk =
     (case blk of None \<Rightarrow> False | Some b \<Rightarrow> color (blocks w b) = color (blocks w this))"

definition matchingAt :: "world \<Rightarrow> bid \<Rightarrow> coord \<Rightarrow> error + bool" where
  "matchingAt w this c =
     (case cell w c of Inl e \<Rightarrow> Inl e | Inr blk \<Rightarrow> Inr (matchingColor w this blk))"

text \<open>
  \<^verbatim>\<open>&&\<close> and \<^verbatim>\<open>||\<close> evaluate their right operand only when the left one does not
  decide, so what the right operand would throw is thrown only then.
\<close>

fun js_and :: "error + bool \<Rightarrow> error + bool \<Rightarrow> error + bool" where
  "js_and (Inl e) r = Inl e"
| "js_and (Inr False) r = Inr False"
| "js_and (Inr True) r = r"

fun js_or :: "error + bool \<Rightarrow> error + bool \<Rightarrow> error + bool" where
  "js_or (Inl e) r = Inl e"
| "js_or (Inr True) r = Inr True"
| "js_or (Inr False) r = r"

definition checkForClear :: "world \<Rightarrow> bid \<Rightarrow> coord \<Rightarrow> error + bool" where
  "checkForClear w this c =
     (case c of (x, y) \<Rightarrow>
        js_and (js_and (js_and (matchingAt w this (x, y)) (matchingAt w this (x, y + 1)))
                       (matchingAt w this (x + 1, y)))
               (matchingAt w this (x + 1, y + 1)))"

definition doClear :: "world \<Rightarrow> bid \<Rightarrow> error + bool" where
  "doClear w this =
     (case coord (blocks w this) of
        None \<Rightarrow> Inl TypeError
      | Some (x, y) \<Rightarrow>
          js_or (js_or (js_or (checkForClear w this (x, y)) (checkForClear w this (x - 1, y)))
                       (checkForClear w this (x, y - 1)))
                (checkForClear w this (x - 1, y - 1)))"

text \<open>
  \<^verbatim>\<open>eraseBlocks\<close> works on the grid and on the local array \<^verbatim>\<open>destroyed\<close>. It calls
  itself, so the model counts the depth of the calls down from a bound: \<open>None\<close> is
  a bound that was too small, never a result of the code.
\<close>

type_synonym erasing = "world \<times> bid list"

fun and_then :: "'a outcome option \<Rightarrow> ('a \<Rightarrow> 'a outcome option) \<Rightarrow> 'a outcome option" where
  "and_then None f = None"
| "and_then (Some (Threw e s)) f = Some (Threw e s)"
| "and_then (Some (Done s)) f = f s"

text \<open>
  One of the four \<^verbatim>\<open>if (matchingColor(grid.contents[..][..])) eraseBlocks(..)\<close>
  statements, for the neighbour at offset \<open>d\<close> from \<^verbatim>\<open>block.coord\<close>.
\<close>

definition visit ::
  "(bid \<Rightarrow> erasing \<Rightarrow> erasing outcome option) \<Rightarrow> bid \<Rightarrow> bid \<Rightarrow> int \<times> int \<Rightarrow> erasing
     \<Rightarrow> erasing outcome option" where
  "visit erase this b d st =
     (case coord (blocks (fst st) b) of
        None \<Rightarrow> Some (Threw TypeError st)
      | Some (x, y) \<Rightarrow>
          (case cell (fst st) (x + fst d, y + snd d) of
             Inl e \<Rightarrow> Some (Threw e st)
           | Inr blk \<Rightarrow>
               if matchingColor (fst st) this blk
               then (case blk of None \<Rightarrow> Some (Done st) | Some b' \<Rightarrow> erase b' st)
               else Some (Done st)))"

primrec eraseBlocks :: "nat \<Rightarrow> bid \<Rightarrow> bid \<Rightarrow> erasing \<Rightarrow> erasing outcome option" where
  "eraseBlocks 0 this b st = None"
| "eraseBlocks (Suc n) this b st =
     (if b \<in> set (snd st) then Some (Done st)
      else case destroy b (fst st) of
             Threw e w \<Rightarrow> Some (Threw e (w, snd st))
           | Done w \<Rightarrow>
               and_then (visit (eraseBlocks n this) this b (0, 1) (w, snd st @ [b])) (\<lambda>st.
               and_then (visit (eraseBlocks n this) this b (0, -1) st) (\<lambda>st.
               and_then (visit (eraseBlocks n this) this b (1, 0) st) (\<lambda>st.
               visit (eraseBlocks n this) this b (-1, 0) st))))"

text \<open>
  \<^verbatim>\<open>clear\<close>. The result carries the final \<^verbatim>\<open>destroyed\<close> array next to the grid, to
  state which blocks were destroyed.
\<close>

definition clear :: "nat \<Rightarrow> bid \<Rightarrow> world \<Rightarrow> erasing outcome option" where
  "clear fuel this w =
     (case doClear w this of
        Inl e \<Rightarrow> Some (Threw e (w, []))
      | Inr False \<Rightarrow> Some (Done (w, []))
      | Inr True \<Rightarrow> eraseBlocks fuel this this (w, []))"

text \<open>
  The specification's notions. A candidate square with bottom-left corner \<open>c\<close> is
  formed when its four cells hold blocks of the triggering block's colour. The
  region of a block is what is reachable from it through cells that are adjacent
  up, down, left or right and hold a block of its colour.
\<close>

definition square_cells :: "coord \<Rightarrow> coord list" where
  "square_cells c = (case c of (x, y) \<Rightarrow> [(x, y), (x, y + 1), (x + 1, y), (x + 1, y + 1)])"

definition square_formed :: "world \<Rightarrow> bid \<Rightarrow> coord \<Rightarrow> bool" where
  "square_formed w this c \<longleftrightarrow> (\<forall>c' \<in> set (square_cells c). matchingColor w this (slot w c'))"

definition candidates :: "coord \<Rightarrow> coord list" where
  "candidates c = (case c of (x, y) \<Rightarrow> [(x, y), (x - 1, y), (x, y - 1), (x - 1, y - 1)])"

definition neighbours :: "coord \<Rightarrow> coord list" where
  "neighbours c = (case c of (x, y) \<Rightarrow> [(x, y + 1), (x, y - 1), (x + 1, y), (x - 1, y)])"

definition adjacent :: "world \<Rightarrow> bid \<Rightarrow> bid \<Rightarrow> bid \<Rightarrow> bool" where
  "adjacent w this b b' \<longleftrightarrow>
     (\<exists>c c'. coord (blocks w b) = Some c \<and> c' \<in> set (neighbours c) \<and> slot w c' = Some b' \<and>
             color (blocks w b') = color (blocks w this))"

inductive_set region :: "world \<Rightarrow> bid \<Rightarrow> bid set" for w :: world and this :: bid where
  start: "this \<in> region w this"
| step: "b \<in> region w this \<Longrightarrow> adjacent w this b b' \<Longrightarrow> b' \<in> region w this"

text \<open>A placed block: it has a coordinate and the slot there holds it.\<close>

definition placed :: "world \<Rightarrow> bid \<Rightarrow> bool" where
  "placed w b \<longleftrightarrow> (\<exists>c. coord (blocks w b) = Some c \<and> slot w c = Some b)"

text \<open>The rows directly above and below a block's row exist.\<close>

definition framed :: "world \<Rightarrow> bid \<Rightarrow> bool" where
  "framed w b \<longleftrightarrow>
     (\<forall>x y. coord (blocks w b) = Some (x, y) \<longrightarrow>
        contents w (y - 1) \<noteq> None \<and> contents w (y + 1) \<noteq> None)"

text \<open>
  The grid \<open>w\<close> is the grid \<open>w0\<close> with the slots of the blocks \<open>ds\<close> emptied and
  nothing else changed.
\<close>

definition emptied :: "world \<Rightarrow> bid list \<Rightarrow> world \<Rightarrow> bool" where
  "emptied w0 ds w \<longleftrightarrow>
     blocks w = blocks w0 \<and>
     (\<forall>y. contents w y = None \<longleftrightarrow> contents w0 y = None) \<and>
     (\<forall>c. slot w c = (case slot w0 c of
                        None \<Rightarrow> None
                      | Some b \<Rightarrow> if b \<in> set ds then None else Some b))"

text \<open>
  A placed block, and a grid of rows 0 to 2 to evaluate on: slot \<open>(1, 1)\<close> holds
  block 7, block 8 has the coordinate \<open>(2, 2)\<close> and no slot holds it, the other
  blocks were never dropped. The coordinate object 9 is \<open>(2, 1)\<close>.
\<close>

definition block0 :: block where
  "block0 = (Block cfg0 ''top'' 0 0 (Some 0xFF0000))\<lparr>coord := Some (1, 1)\<rparr>"


text \<open>
  The four statements of \<^verbatim>\<open>eraseBlocks\<close> as one sequence over the four offsets, in
  the order of the source: below, above, right, left.
\<close>

fun visits ::
  "(bid \<Rightarrow> erasing \<Rightarrow> erasing outcome option) \<Rightarrow> bid \<Rightarrow> bid \<Rightarrow> (int \<times> int) list \<Rightarrow> erasing
     \<Rightarrow> erasing outcome option" where
  "visits erase this b [] st = Some (Done st)"
| "visits erase this b (d # ds) st = and_then (visit erase this b d st) (visits erase this b ds)"

definition offsets :: "(int \<times> int) list" where
  "offsets = [(0, 1), (0, -1), (1, 0), (-1, 0)]"

text \<open>
  What holds while \<^verbatim>\<open>eraseBlocks\<close> runs on a consistent grid \<open>w0\<close>: the grid is
  \<open>w0\<close> minus the destroyed blocks, no block is destroyed twice, and every destroyed
  block belongs to the region. \<open>closed_new\<close> says that the blocks added by a call have
  all their matching neighbours destroyed as well; \<open>handled\<close> says so for one
  neighbour of one block.
\<close>

definition good :: "world \<Rightarrow> bid \<Rightarrow> erasing \<Rightarrow> bool" where
  "good w0 this st \<longleftrightarrow>
     emptied w0 (snd st) (fst st) \<and> distinct (snd st) \<and> set (snd st) \<subseteq> region w0 this"

definition closed_new :: "world \<Rightarrow> bid \<Rightarrow> bid list \<Rightarrow> bid list \<Rightarrow> bool" where
  "closed_new w0 this ds ds' \<longleftrightarrow>
     (\<forall>b \<in> set ds' - set ds. \<forall>b'. adjacent w0 this b b' \<longrightarrow> b' \<in> set ds')"

definition handled :: "world \<Rightarrow> bid \<Rightarrow> bid \<Rightarrow> int \<times> int \<Rightarrow> bid list \<Rightarrow> bool" where
  "handled w0 this b d ds \<longleftrightarrow>
     (\<forall>x y b'. coord (blocks w0 b) = Some (x, y) \<longrightarrow> slot w0 (x + fst d, y + snd d) = Some b' \<longrightarrow>
        color (blocks w0 b') = color (blocks w0 this) \<longrightarrow> b' \<in> set ds)"

text \<open>Every block of the region has a row above and a row below it.\<close>

definition all_framed :: "world \<Rightarrow> bid \<Rightarrow> bool" where
  "all_framed w this \<longleftrightarrow> (\<forall>b \<in> region w this. framed w b)"

text \<open>What a call of \<^verbatim>\<open>eraseBlocks\<close>, and a sequence of neighbour visits, establish.\<close>

definition post :: "world \<Rightarrow> bid \<Rightarrow> erasing \<Rightarrow> bid \<Rightarrow> erasing outcome \<Rightarrow> bool" where
  "post w0 this st b r \<longleftrightarrow>
     good w0 this (state_of r) \<and> set (snd st) \<subseteq> set (snd (state_of r)) \<and>
     (returned r \<longrightarrow> b \<in> set (snd (state_of r)) \<and> closed_new w0 this (snd st) (snd (state_of r))) \<and>
     (all_framed w0 this \<longrightarrow> returned r)"

definition vpost :: "world \<Rightarrow> bid \<Rightarrow> erasing \<Rightarrow> bid \<Rightarrow> (int \<times> int) list \<Rightarrow> erasing outcome \<Rightarrow> bool" where
  "vpost w0 this st b ds r \<longleftrightarrow>
     good w0 this (state_of r) \<and> set (snd st) \<subseteq> set (snd (state_of r)) \<and>
     (returned r \<longrightarrow> closed_new w0 this (snd st) (snd (state_of r)) \<and>
        (\<forall>d \<in> set ds. handled w0 this b d (snd (state_of r)))) \<and>
     (all_framed w0 this \<longrightarrow> returned r)"

text \<open>
  Grids to evaluate on; every placed block has a coordinate object of its own, named
  like the block. \<open>world2\<close>: rows 0 to 3, a red square in rows 1 and 2 and an
  unbreakable block next to it. \<open>world3\<close>: only rows 0 and 1, filled by a red square.
  \<open>world4\<close>: rows 0 to 2 and one block on row 0. \<open>world5\<close>: rows 0 to 3 and, in rows
  1 and 2, a square of four blocks that were constructed without a colour.
\<close>

definition red :: block where
  "red = Block cfg0 ''top'' 0 0 (Some 0xFF0000)"

definition grey :: block where
  "grey = Block cfg0 ''top'' 0 0 None"

definition located :: "block \<Rightarrow> coord \<Rightarrow> block" where
  "located b c = b\<lparr>coord := Some c\<rparr>"

definition world2 :: world where
  "world2 = \<lparr>blocks = (\<lambda>b. grey)(11 := located red (1, 1), 21 := located red (2, 1), 12 := located red (1, 2),
                                   22 := located red (2, 2), 31 := located grey (3, 1)),
             contents = [0 \<mapsto> Map.empty, 1 \<mapsto> [1 \<mapsto> 11, 2 \<mapsto> 21, 3 \<mapsto> 31],
                         2 \<mapsto> [1 \<mapsto> 12, 2 \<mapsto> 22], 3 \<mapsto> Map.empty],
             objects = (\<lambda>ob. (0, 0))(11 := (1, 1), 21 := (2, 1), 12 := (1, 2), 22 := (2, 2),
                                       31 := (3, 1)),
             coordObject = (\<lambda>b. None)(11 := Some 11, 21 := Some 21, 12 := Some 12, 22 := Some 22,
                                        31 := Some 31)\<rparr>"

definition world3 :: world where
  "world3 = \<lparr>blocks = (\<lambda>b. grey)(10 := located red (1, 0), 20 := located red (2, 0), 11 := located red (1, 1),
                                   21 := located red (2, 1)),
             contents = [0 \<mapsto> [1 \<mapsto> 10, 2 \<mapsto> 20], 1 \<mapsto> [1 \<mapsto> 11, 2 \<mapsto> 21]],
             objects = (\<lambda>ob. (0, 0))(10 := (1, 0), 20 := (2, 0), 11 := (1, 1), 21 := (2, 1)),
             coordObject = (\<lambda>b. None)(10 := Some 10, 20 := Some 20, 11 := Some 11,
                                        21 := Some 21)\<rparr>"

definition world4 :: world where
  "world4 = \<lparr>blocks = (\<lambda>b. grey)(10 := located red (1, 0)),
             contents = [0 \<mapsto> [1 \<mapsto> 10], 1 \<mapsto> Map.empty, 2 \<mapsto> Map.empty],
             objects = (\<lambda>ob. (0, 0))(10 := (1, 0)),
             coordObject = (\<lambda>b. None)(10 := Some 10)\<rparr>"

definition world5 :: world where
  "world5 = \<lparr>blocks = (\<lambda>b. grey)(11 := located grey (1, 1), 21 := located grey (2, 1), 12 := located grey (1, 2),
                                   22 := located grey (2, 2)),
             contents = [0 \<mapsto> Map.empty, 1 \<mapsto> [1 \<mapsto> 11, 2 \<mapsto> 21],
                         2 \<mapsto> [1 \<mapsto> 12, 2 \<mapsto> 22], 3 \<mapsto> Map.empty],
             objects = (\<lambda>ob. (0, 0))(11 := (1, 1), 21 := (2, 1), 12 := (1, 2), 22 := (2, 2)),
             coordObject = (\<lambda>b. None)(11 := Some 11, 21 := Some 21, 12 := Some 12,
                                        22 := Some 22)\<rparr>"

text \<open>What a call of \<^verbatim>\<open>clear\<close> destroyed, and what it threw.\<close>

definition destroyed_by :: "erasing outcome option \<Rightarrow> bid list" where
  "destroyed_by r = (case r of None \<Rightarrow> [] | Some out \<Rightarrow> snd (state_of out))"

definition thrown :: "'a outcome option \<Rightarrow> error option" where
  "thrown r = (case r of Some (Threw e s) \<Rightarrow> Some e | _ \<Rightarrow> None)"

section \<open>Properties of the score module\<close>

subsection \<open>Rounding to a double\<close>

lemma exp53_small: "n < 2 ^ 53 \<Longrightarrow> exp53 n = 0"
  by (simp add: exp53.simps)

lemma exp53_large: "\<not> n < 2 ^ 53 \<Longrightarrow> exp53 n = Suc (exp53 (n div 2))"
  by (subst exp53.simps) simp

lemma round53_small: "n < 2 ^ 53 \<Longrightarrow> round53 n = n"
  by (simp add: round53_def exp53_small)

lemma div_exp53_less: "n div 2 ^ exp53 n < 2 ^ 53"
proof (induction n rule: exp53.induct)
  case (1 n)
  show ?case
  proof (cases "n < 2 ^ 53")
    case True
    then show ?thesis by (simp add: exp53_small)
  next
    case False
    have "n div 2 ^ Suc (exp53 (n div 2)) = (n div 2) div 2 ^ exp53 (n div 2)"
      by (simp add: div_mult2_eq)
    with 1 [OF False] False show ?thesis by (simp add: exp53_large)
  qed
qed

lemma div_exp53_ge: "0 < exp53 n \<Longrightarrow> 2 ^ 52 \<le> n div 2 ^ exp53 n"
proof (induction n rule: exp53.induct)
  case (1 n)
  show ?case
  proof (cases "n < 2 ^ 53")
    case True
    with 1(2) show ?thesis by (simp add: exp53_small)
  next
    case False
    have e: "n div 2 ^ Suc (exp53 (n div 2)) = (n div 2) div 2 ^ exp53 (n div 2)"
      by (simp add: div_mult2_eq)
    show ?thesis
    proof (cases "0 < exp53 (n div 2)")
      case True
      from 1(1) [OF False True] e False show ?thesis by (simp add: exp53_large)
    next
      case z: False
      then have "n div 2 < 2 ^ 53"
        using exp53_large [of "n div 2"] by (cases "n div 2 < 2 ^ 53") auto
      moreover from False have "2 ^ 52 \<le> n div 2" by simp
      ultimately show ?thesis using z False e by (simp add: exp53_large)
    qed
  qed
qed

lemma exp53_mono: "m \<le> n \<Longrightarrow> exp53 m \<le> exp53 n"
proof (induction n arbitrary: m rule: exp53.induct)
  case (1 n)
  show ?case
  proof (cases "m < 2 ^ 53")
    case True
    then show ?thesis by (simp add: exp53_small)
  next
    case False
    with 1(2) have n: "\<not> n < 2 ^ 53" by simp
    from 1(2) have "m div 2 \<le> n div 2" by (rule div_le_mono)
    from 1(1) [OF n this] False n show ?thesis by (simp add: exp53_large)
  qed
qed

lemma exp53_times:
  assumes "m < 2 ^ 53" and "k = 0 \<or> 2 ^ 52 \<le> m"
  shows "exp53 (m * 2 ^ k) = k"
  using assms(2)
proof (induction k)
  case 0
  with assms(1) show ?case by (simp add: exp53_small)
next
  case (Suc k)
  then have m: "2 ^ 52 \<le> m" by simp
  have "(2::nat) ^ 52 * 2 ^ Suc k \<le> m * 2 ^ Suc k"
    using m by (rule mult_le_mono1)
  moreover have "(2::nat) ^ 53 \<le> 2 ^ 52 * 2 ^ Suc k"
    by simp
  ultimately have "\<not> m * 2 ^ Suc k < 2 ^ 53" by linarith
  then have "exp53 (m * 2 ^ Suc k) = Suc (exp53 ((m * 2 ^ Suc k) div 2))"
    by (rule exp53_large)
  also have "(m * 2 ^ Suc k) div 2 = m * 2 ^ k" by simp
  finally show ?case using Suc.IH m by simp
qed


lemma round53_cases:
  "round53 n = (n div 2 ^ exp53 n) * 2 ^ exp53 n \<or>
   round53 n = (n div 2 ^ exp53 n + 1) * 2 ^ exp53 n"
  by (simp add: round53_def Let_def)

lemma round53_ge: "(n div 2 ^ exp53 n) * 2 ^ exp53 n \<le> round53 n"
  using round53_cases [of n] by auto

lemma representable_times:
  assumes "m \<le> 2 ^ 53" and "k = 0 \<or> 2 ^ 52 \<le> m"
  shows "representable (m * 2 ^ k)"
proof (cases "m = 2 ^ 53")
  case True
  have "exp53 (2 ^ 52 * 2 ^ Suc k) = Suc k"
    by (rule exp53_times) simp_all
  moreover have "m * 2 ^ k = 2 ^ 52 * 2 ^ Suc k" using True by simp
  ultimately show ?thesis by (simp add: representable_def)
next
  case False
  with assms(1) have "m < 2 ^ 53" by simp
  from exp53_times [OF this assms(2)] show ?thesis by (simp add: representable_def)
qed

lemma representable_round53: "representable (round53 n)"
proof -
  let ?k = "exp53 n" and ?q = "n div 2 ^ exp53 n"
  have q: "?q < 2 ^ 53" by (rule div_exp53_less)
  have g: "?k = 0 \<or> 2 ^ 52 \<le> ?q" using div_exp53_ge [of n] by auto
  from round53_cases [of n] show ?thesis
  proof
    assume "round53 n = ?q * 2 ^ ?k"
    with representable_times [of ?q ?k] q g show ?thesis by simp
  next
    assume r: "round53 n = (?q + 1) * 2 ^ ?k"
    show ?thesis
    proof (cases "?k = 0")
      case True
      then have "round53 n = n" by (simp add: round53_def)
      with True show ?thesis by (simp add: representable_def)
    next
      case False
      with g have "2 ^ 52 \<le> ?q + 1" by simp
      moreover from q have "?q + 1 \<le> 2 ^ 53" by simp
      ultimately have "representable ((?q + 1) * 2 ^ ?k)"
        by (intro representable_times) simp_all
      with r show ?thesis by simp
    qed
  qed
qed

lemma representable_le_round53:
  assumes "representable a" and "a \<le> n"
  shows "a \<le> round53 n"
proof -
  let ?u = "2 ^ exp53 n :: nat"
  have "a \<le> (n div ?u) * ?u"
  proof (cases "exp53 a = exp53 n")
    case True
    with assms(1) have "a = (a div ?u) * ?u"
      by (simp add: representable_def mod_eq_0_iff_dvd)
    moreover from assms(2) have "a div ?u \<le> n div ?u" by (rule div_le_mono)
    ultimately show ?thesis by (metis mult_le_mono1)
  next
    case False
    with exp53_mono [OF assms(2)] have l: "exp53 a < exp53 n" by simp
    then have "0 < exp53 n" by simp
    from div_exp53_ge [OF this] have "2 ^ 52 * ?u \<le> (n div ?u) * ?u"
      by (rule mult_le_mono1)
    moreover have "a \<le> 2 ^ 52 * ?u"
    proof -
      have "a = (a div 2 ^ exp53 a) * 2 ^ exp53 a"
        using assms(1) by (simp add: representable_def mod_eq_0_iff_dvd)
      also have "\<dots> \<le> 2 ^ 53 * 2 ^ exp53 a"
        using div_exp53_less [of a] by (intro mult_le_mono1) simp
      also have "\<dots> = 2 ^ 52 * 2 ^ Suc (exp53 a)" by simp
      also have "\<dots> \<le> 2 ^ 52 * ?u"
        using l by (intro mult_le_mono2 power_increasing) simp_all
      finally show ?thesis .
    qed
    ultimately show ?thesis by linarith
  qed
  with round53_ge [of n] show ?thesis by linarith
qed


lemma round53_representable: "representable a \<Longrightarrow> round53 a = a"
  by (simp add: round53_def representable_def Let_def mod_eq_0_iff_dvd)

lemma to_number_small: "n < 2 ^ 53 \<Longrightarrow> to_number n = Num n"
proof -
  assume n: "n < 2 ^ 53"
  have "(2::nat) ^ 53 < 2 ^ 1024" by (rule power_strict_increasing) simp_all
  with n show ?thesis by (simp add: to_number_def round53_small)
qed

lemma to_number_Num: "to_number n = Num r \<Longrightarrow> representable r \<and> r < 2 ^ 1024 \<and> r = round53 n"
  using representable_round53 [of n] by (auto simp: to_number_def Let_def split: if_splits)

lemma to_number_not_NaN: "to_number n \<noteq> NaN"
  by (simp add: to_number_def Let_def)

lemma plus_number_Num:
  "plus_number x p = Num r \<Longrightarrow> representable r \<and> r < 2 ^ 1024"
  by (cases "(x, p)" rule: plus_number.cases) (auto dest: to_number_Num)

lemma ge_number_plus:
  assumes "\<And>a. x = Num a \<Longrightarrow> representable a" and "ge_number x b"
    and "plus_number x p \<noteq> NaN"
  shows "ge_number (plus_number x p) b"
proof (cases "plus_number x p")
  case (Num r)
  then obtain a q where x: "x = Num a" "p = Num q" "to_number (a + q) = Num r"
    by (cases "(x, p)" rule: plus_number.cases) auto
  from to_number_Num [OF x(3)] have "r = round53 (a + q)" by simp
  with representable_le_round53 [of a "a + q"] assms(1) [OF x(1)] have "a \<le> r" by simp
  with assms(2) x(1) Num show ?thesis by simp
next
  case Infinity
  then show ?thesis by simp
next
  case NaN
  with assms(3) show ?thesis by simp
qed

lemma plus_number_zero:
  assumes "case x of Num a \<Rightarrow> representable a \<and> a < 2 ^ 1024 | _ \<Rightarrow> True"
  shows "plus_number x (Num 0) = x"
  using assms by (cases x) (simp_all add: to_number_def round53_representable)

subsection \<open>The level\<close>

lemma calcLevel_from_cases:
  "calcLevel_from cfg s n = level s \<or>
   (\<exists>i<n. calcLevel_from cfg s n = i + 1 \<and> ge_number (current s) (checkpoints cfg ! i))"
  by (induction n) (auto simp: less_Suc_eq)

lemma calcLevel_from_ge:
  "i < n \<Longrightarrow> ge_number (current s) (checkpoints cfg ! i) \<Longrightarrow> i + 1 \<le> calcLevel_from cfg s n"
  by (induction n) (auto simp: less_Suc_eq)

lemma calcLevel_from_level_irrelevant:
  "calcLevel_from cfg s n \<noteq> level s \<Longrightarrow>
   calcLevel_from cfg (s\<lparr>level := l\<rparr>) n = calcLevel_from cfg s n"
  by (induction n) auto

lemma calcLevel_from_cong:
  "current s' = current s \<Longrightarrow> level s' = level s \<Longrightarrow>
   calcLevel_from cfg s' n = calcLevel_from cfg s n"
  by (induction n) auto

lemma anchored_calcLevel: "anchored cfg s \<Longrightarrow> level s \<le> calcLevel cfg s"
proof -
  assume a: "anchored cfg s"
  show ?thesis
  proof (cases "level s = 0 \<or> current s = NaN")
    case True
    then show ?thesis
      using calcLevel_from_cases [of cfg s "length (checkpoints cfg)"]
      by (auto simp: calcLevel_def)
  next
    case False
    with a have "level s - 1 < length (checkpoints cfg)"
      and "ge_number (current s) (checkpoints cfg ! (level s - 1))"
      by (auto simp: anchored_def)
    from calcLevel_from_ge [OF this] show ?thesis
      by (simp add: calcLevel_def)
  qed
qed

lemma newLevel_fields:
  "current (state_of (newLevel cfg s)) = current s"
  "level (state_of (newLevel cfg s)) = level s"
  "board (state_of (newLevel cfg s)) = board s"
  by (auto simp: newLevel_def Let_def split: option.splits)

lemma update_current:
  "current (state_of (update eng cfg c s)) =
     plus_number (current s) (Math_floor (Math_pow eng c (lookup (points cfg) (level s))))"
  by (simp add: update_def Let_def newLevel_fields)

lemma update_sound: "sound (state_of (update eng cfg c s))"
  unfolding sound_def update_current
  by (auto split: number.splits dest: plus_number_Num)

lemma calcLevel_cong:
  "current s' = current s \<Longrightarrow> level s' = level s \<Longrightarrow> calcLevel cfg s' = calcLevel cfg s"
  unfolding calcLevel_def by (rule calcLevel_from_cong)

lemma update_level:
  "level (state_of (update eng cfg c s)) =
     max (level s) (calcLevel cfg (s\<lparr>current := current (state_of (update eng cfg c s))\<rparr>))"
proof -
  let ?cur = "plus_number (current s) (Math_floor (Math_pow eng c (lookup (points cfg) (level s))))"
  let ?s2 = "s\<lparr>current := ?cur, board := boardText eng (level s + 1) ?cur\<rparr>"
  have c: "calcLevel cfg ?s2 = calcLevel cfg (s\<lparr>current := ?cur\<rparr>)"
    by (rule calcLevel_cong) simp_all
  have "level (state_of (update eng cfg c s)) = max (level s) (calcLevel cfg ?s2)"
    by (simp add: update_def Let_def newLevel_fields max_def)
  then show ?thesis
    by (simp only: c update_current)
qed

lemma update_anchored:
  assumes a: "anchored cfg s" and so: "sound s"
  shows "anchored cfg (state_of (update eng cfg c s))"
proof -
  let ?s' = "state_of (update eng cfg c s)"
  let ?t = "s\<lparr>current := current ?s'\<rparr>"
  have lv: "level ?s' = max (level s) (calcLevel cfg ?t)"
    by (rule update_level)
  show ?thesis
  proof (cases "level s < calcLevel cfg ?t")
    case True
    then have neq: "calcLevel_from cfg ?t (length (checkpoints cfg)) \<noteq> level ?t"
      by (simp add: calcLevel_def)
    with calcLevel_from_cases [of cfg ?t "length (checkpoints cfg)"]
    obtain i where i: "i < length (checkpoints cfg)" "calcLevel cfg ?t = i + 1"
      "ge_number (current ?t) (checkpoints cfg ! i)"
      unfolding calcLevel_def by blast
    from True lv i(2) have "level ?s' = i + 1" by simp
    with i(1,3) show ?thesis
      unfolding anchored_def by simp
  next
    case False
    with lv have l: "level ?s' = level s" by simp
    show ?thesis
    proof (cases "level s = 0 \<or> current ?s' = NaN")
      case True
      then show ?thesis unfolding anchored_def l by blast
    next
      case n: False
      with a have "current s \<noteq> NaN"
        by (auto simp: update_current)
      with a n have g: "level s \<le> length (checkpoints cfg)"
         "ge_number (current s) (checkpoints cfg ! (level s - 1))"
        unfolding anchored_def by blast+
      from n have nn: "plus_number (current s)
          (Math_floor (Math_pow eng c (lookup (points cfg) (level s)))) \<noteq> NaN"
        by (simp add: update_current)
      have r: "representable a" if "current s = Num a" for a
        using so that by (simp add: sound_def)
      from ge_number_plus [OF r g(2) nn]
      have "ge_number (current ?s') (checkpoints cfg ! (level s - 1))"
        by (simp only: update_current)
      with g(1) show ?thesis unfolding anchored_def l by blast
    qed
  qed
qed

lemma updates_snoc:
  "updates eng cfg (cs @ [c]) s = state_of (update eng cfg c (updates eng cfg cs s))"
  by (simp add: updates_def)

lemma updates_Nil: "updates eng cfg [] s = s"
  by (simp add: updates_def)

lemma updates_append:
  "updates eng cfg (as @ bs) s = updates eng cfg bs (updates eng cfg as s)"
  by (simp add: updates_def)

lemma updates_sound: "sound s \<Longrightarrow> sound (updates eng cfg cs s)"
  by (induction cs rule: rev_induct) (simp_all add: updates_snoc updates_Nil update_sound)

lemma updates_anchored:
  "anchored cfg s \<Longrightarrow> sound s \<Longrightarrow> anchored cfg (updates eng cfg cs s)"
  by (induction cs rule: rev_induct)
    (simp_all add: updates_snoc updates_Nil update_anchored updates_sound)

lemma Score_anchored: "anchored cfg Score"
  by (simp add: anchored_def Score_def)

lemma Score_sound: "sound Score"
  by (simp add: sound_def Score_def representable_def)

lemma calcLevel_eq_level_or:
  "calcLevel cfg s = level s \<or>
   (\<exists>i<length (checkpoints cfg). calcLevel cfg s = i + 1 \<and>
      ge_number (current s) (checkpoints cfg ! i))"
  unfolding calcLevel_def by (rule calcLevel_from_cases)

lemma calcLevel_Num0:
  "0 \<notin> set (checkpoints cfg) \<Longrightarrow> current s = Num 0 \<Longrightarrow> calcLevel cfg s = level s"
  using calcLevel_eq_level_or [of cfg s]
  by (auto simp: in_set_conv_nth)

lemma calcLevel_NaN: "current s = NaN \<Longrightarrow> calcLevel cfg s = level s"
  using calcLevel_eq_level_or [of cfg s] by auto

lemma calcLevel_level_upd:
  "calcLevel cfg s \<noteq> level s \<Longrightarrow> calcLevel cfg (s\<lparr>level := l\<rparr>) = calcLevel cfg s"
  unfolding calcLevel_def by (rule calcLevel_from_level_irrelevant)

lemma update_settled: "settled cfg (state_of (update eng cfg c s))"
proof -
  let ?s' = "state_of (update eng cfg c s)"
  let ?t = "s\<lparr>current := current ?s'\<rparr>"
  have lv: "level ?s' = max (level s) (calcLevel cfg ?t)"
    by (rule update_level)
  have eq: "calcLevel cfg ?s' = calcLevel cfg (?t\<lparr>level := level ?s'\<rparr>)"
    by (rule calcLevel_cong) simp_all
  show ?thesis
  proof (cases "calcLevel cfg ?t = level ?t")
    case True
    with lv have l: "level ?s' = level s" by simp
    have "calcLevel cfg ?s' = calcLevel cfg ?t"
      by (rule calcLevel_cong) (simp_all add: l)
    with True l show ?thesis by (simp add: settled_def)
  next
    case False
    then have "calcLevel cfg (?t\<lparr>level := level ?s'\<rparr>) = calcLevel cfg ?t"
      by (rule calcLevel_level_upd)
    with eq lv show ?thesis by (simp add: settled_def)
  qed
qed

lemma updates_settled:
  "0 \<notin> set (checkpoints cfg) \<Longrightarrow> settled cfg (updates eng cfg cs Score)"
proof (induction cs rule: rev_induct)
  case Nil
  have "calcLevel cfg Score = level Score"
    by (rule calcLevel_Num0 [OF Nil]) (simp add: Score_def)
  then show ?case by (simp add: updates_Nil settled_def)
next
  case (snoc c cs)
  show ?case unfolding updates_snoc by (rule update_settled)
qed

lemma Math_pow_zero:
  assumes "\<forall>e \<in> set (points cfg). 0 < e"
  shows "Math_floor (Math_pow eng 0 (lookup (points cfg) l)) = Num 0 \<or>
         Math_floor (Math_pow eng 0 (lookup (points cfg) l)) = NaN"
proof (cases "lookup (points cfg) l")
  case None
  then show ?thesis by (simp add: Math_pow_def)
next
  case (Some e)
  then have "e \<in> set (points cfg)"
    by (auto simp: lookup_def split: if_splits)
  with assms have "0 < e" by blast
  with Some show ?thesis by (simp add: Math_pow_def)
qed

lemma update_zero_level:
  assumes "settled cfg s" and "sound s" and "\<forall>e \<in> set (points cfg). 0 < e"
  shows "level (state_of (update eng cfg 0 s)) = level s"
proof -
  let ?s' = "state_of (update eng cfg 0 s)"
  let ?t = "s\<lparr>current := current ?s'\<rparr>"
  have lv: "level ?s' = max (level s) (calcLevel cfg ?t)"
    by (rule update_level)
  from Math_pow_zero [OF assms(3), of eng "level s"]
  have "current ?s' = current s \<or> current ?s' = NaN"
  proof
    assume "Math_floor (Math_pow eng 0 (lookup (points cfg) (level s))) = Num 0"
    with plus_number_zero [of "current s"] assms(2) show ?thesis
      by (simp add: update_current sound_def)
  next
    assume "Math_floor (Math_pow eng 0 (lookup (points cfg) (level s))) = NaN"
    then have "current ?s' = NaN"
      by (cases "current s") (simp_all add: update_current)
    then show ?thesis ..
  qed
  then have "calcLevel cfg ?t \<le> level s"
  proof
    assume "current ?s' = current s"
    then have "calcLevel cfg ?t = calcLevel cfg s" by (intro calcLevel_cong) simp_all
    with assms(1) show ?thesis by (simp add: settled_def)
  next
    assume "current ?s' = NaN"
    then have "calcLevel cfg ?t = level ?t" by (intro calcLevel_NaN) simp
    then show ?thesis by simp
  qed
  with lv show "level ?s' = level s" by simp
qed

lemma updates_zero_level:
  assumes "settled cfg s" and "sound s" and "\<forall>e \<in> set (points cfg). 0 < e"
  shows "level (updates eng cfg (replicate k 0) s) = level s \<and>
         settled cfg (updates eng cfg (replicate k 0) s) \<and>
         sound (updates eng cfg (replicate k 0) s)"
proof (induction k)
  case 0
  from assms show ?case by (simp add: updates_Nil)
next
  case (Suc k)
  have r: "replicate (Suc k) (0::nat) = replicate k 0 @ [0]"
    by (simp add: replicate_append_same)
  from Suc update_zero_level [of cfg "updates eng cfg (replicate k 0) s" eng] assms(3)
  have "level (updates eng cfg (replicate (Suc k) 0) s) = level s"
    unfolding r updates_snoc by simp
  then show ?case
    unfolding r updates_snoc by (simp add: update_settled update_sound)
qed

lemma update_level_mono: "level s \<le> level (state_of (update eng cfg c s))"
  by (simp add: update_level)

text \<open>
  Claim C7, amended. The level never decreases. An \<^verbatim>\<open>update\<close> never lowers the level,
  from any state; in every state that a history of \<^verbatim>\<open>update\<close> calls produces from a
  fresh \<^verbatim>\<open>Score\<close>, \<^verbatim>\<open>calcLevel\<close> returns at least the current level; and when every
  checkpoint and every configured exponent is positive, any number of further
  \<^verbatim>\<open>update(0)\<close> calls leave the level where it is.
\<close>

theorem level_monotone:
  "level s \<le> level (state_of (update eng cfg c s)) \<and>
   level (updates eng cfg cs Score) \<le> calcLevel cfg (updates eng cfg cs Score) \<and>
   (0 \<notin> set (checkpoints cfg) \<and> (\<forall>e \<in> set (points cfg). 0 < e) \<longrightarrow>
      level (updates eng cfg (cs @ replicate k 0) Score) = level (updates eng cfg cs Score))"
proof (intro conjI impI)
  show "level s \<le> level (state_of (update eng cfg c s))" by (rule update_level_mono)
  show "level (updates eng cfg cs Score) \<le> calcLevel cfg (updates eng cfg cs Score)"
    by (intro anchored_calcLevel updates_anchored Score_anchored Score_sound)
  assume h: "0 \<notin> set (checkpoints cfg) \<and> (\<forall>e \<in> set (points cfg). 0 < e)"
  then have "settled cfg (updates eng cfg cs Score)" by (simp add: updates_settled)
  moreover have "sound (updates eng cfg cs Score)" by (intro updates_sound Score_sound)
  ultimately show "level (updates eng cfg (cs @ replicate k 0) Score) =
      level (updates eng cfg cs Score)"
    using updates_zero_level [of cfg "updates eng cfg cs Score" eng k] h
    by (simp add: updates_append)
qed

lemma engine0_pow: "pow_impl engine0 c 1 = Power c 0"
  by (simp add: engine0_def)

theorem level_monotone_witness:
  "checkpoints cfg0 = [100, 300, 600] \<and> points cfg0 = [1, 2] \<and>
   level (updates engine0 cfg0 [50, 60] Score) = 1 \<and>
   level (updates engine0 cfg0 ([50, 60] @ replicate 3 0) Score) = 1"
proof -
  have h: "0 \<notin> set (checkpoints cfg0) \<and> (\<forall>e \<in> set (points cfg0). 0 < e)"
    by (simp add: cfg0_def)
  have l: "level (updates engine0 cfg0 [50, 60] Score) = 1"
    by (simp add: updates_def update_def Let_def cfg0_def lookup_def Score_def calcLevel_def
        newLevel_fields Math_pow_def engine0_pow to_number_small)
  from level_monotone [where cfg = cfg0 and cs = "[50, 60]" and k = 3 and s = Score and c = 0
      and eng = engine0] h
  have "level (updates engine0 cfg0 ([50, 60] @ replicate 3 0) Score) =
      level (updates engine0 cfg0 [50, 60] Score)"
    by blast
  with l show ?thesis by (simp add: cfg0_def)
qed

text \<open>
  Claim C7 as stated fails: with the exponent 0 configured for level 0 and a first
  checkpoint of 1, \<^verbatim>\<open>Math.pow(0, 0)\<close> is 1, so \<^verbatim>\<open>update(0)\<close> on a fresh score raises
  the score to 1 and the level from 0 to 1.
\<close>

theorem update_zero_counterexample:
  "level Score = 0 \<and> current (state_of (update engine0 cfg1 0 Score)) = Num 1 \<and>
   level (state_of (update engine0 cfg1 0 Score)) = 1"
  by (simp add: update_def Let_def cfg1_def lookup_def Score_def calcLevel_def newLevel_fields
      Math_pow_def to_number_small)


subsection \<open>The level transition\<close>

text \<open>
  Claim C8. A level transition calls its collaborators in the order of the
  specification: generator, music, background colour, centre quad breakable, grid
  cleared, middle reset, centre quad redrawn, re-centred and marked unbreakable. With a
  palette configured for the new level all of them are made and \<^verbatim>\<open>newLevel\<close> returns;
  with none, reading the palette throws after the first two.
\<close>

theorem newLevel_order:
  "(lookup (color_available cfg) (level s) \<noteq> None \<longrightarrow>
      newLevel cfg s = Done (s\<lparr>calls := calls s @ transition_calls cfg (level s)\<rparr>)) \<and>
   (lookup (color_available cfg) (level s) = None \<longrightarrow>
      newLevel cfg s = Threw TypeError (s\<lparr>calls := calls s @ take 2 (transition_calls cfg (level s))\<rparr>))"
  by (auto simp: newLevel_def transition_calls_def Let_def)

theorem newLevel_order_witness:
  "newLevel cfg0 (Score\<lparr>level := 1\<rparr>) =
     Done (Score\<lparr>level := 1, calls := [SetLevel 1, MusicPlay ''background2'', NewColor (Some 0x0000FF),
        Breakable, ClearAll, ResetMiddle, Redraw, ToCenter, Unbreakable]\<rparr>) \<and>
   newLevel cfg0 (Score\<lparr>level := 2\<rparr>) =
     Threw TypeError (Score\<lparr>level := 2, calls := [SetLevel 2, MusicPlay ''background3'']\<rparr>)"
  using newLevel_order [of cfg0 "Score\<lparr>level := 1\<rparr>"] newLevel_order [of cfg0 "Score\<lparr>level := 2\<rparr>"]
  by (simp add: cfg0_def lookup_def transition_calls_def Score_def digits.simps)

subsection \<open>update\<close>






section \<open>Properties of the block module\<close>

subsection \<open>drop, destroy and slide\<close>

lemma consistentD: "consistent w \<Longrightarrow> slot w c = Some b \<Longrightarrow> coord (blocks w b) = Some c"
  unfolding consistent_def by blast





lemma slot_destroy:
  "destroy b w = Done w' \<Longrightarrow> slot w' c = (if coord (blocks w b) = Some c then None else slot w c)"
  by (auto simp: destroy_def slot_def prod_eq_iff split: option.splits prod.splits if_splits)

lemma blocks_destroy: "blocks (state_of (destroy b w)) = blocks w"
  by (auto simp: destroy_def split: option.splits prod.splits)
























lemma toLowerCase_lower [simp]:
  "toLowerCase ''top'' = ''top''" "toLowerCase ''bottom'' = ''bottom''"
  "toLowerCase ''left'' = ''left''" "toLowerCase ''right'' = ''right''"
  by (simp_all add: toLowerCase_def lower_char_def)




text \<open>
  Claim C9, amended. \<^verbatim>\<open>slide\<close> lower-cases its argument first. When the lower-cased
  direction is none of top, bottom, left, right it throws the invalid-argument error
  and the block is unchanged; for a placed block and a direction that lower-cases to
  one of the four, the coordinate moves by one cell on that axis and the other axis
  is unchanged.
\<close>

theorem slide_directions:
  "(toLowerCase dir \<notin> {''top'', ''bottom'', ''left'', ''right''} \<longrightarrow>
      slide dir b = Threw (InvalidDirection (''Invalid argument to Block.slide: '' @ dir)) b) \<and>
   (coord b = Some (x, y) \<longrightarrow>
      (toLowerCase dir = ''top'' \<longrightarrow> slide dir b = Done (b\<lparr>coord := Some (x, y - 1)\<rparr>)) \<and>
      (toLowerCase dir = ''bottom'' \<longrightarrow> slide dir b = Done (b\<lparr>coord := Some (x, y + 1)\<rparr>)) \<and>
      (toLowerCase dir = ''left'' \<longrightarrow> slide dir b = Done (b\<lparr>coord := Some (x - 1, y)\<rparr>)) \<and>
      (toLowerCase dir = ''right'' \<longrightarrow> slide dir b = Done (b\<lparr>coord := Some (x + 1, y)\<rparr>)))"
  by (simp add: slide_def move_def Let_def)

theorem slide_directions_witness:
  "toLowerCase ''up'' \<notin> {''top'', ''bottom'', ''left'', ''right''} \<and>
   slide ''up'' block0 = Threw (InvalidDirection ''Invalid argument to Block.slide: up'') block0 \<and>
   coord block0 = Some (1, 1) \<and> toLowerCase ''left'' = ''left'' \<and>
   slide ''left'' block0 = Done (block0\<lparr>coord := Some (0, 1)\<rparr>)"
proof -
  have h: "toLowerCase ''up'' \<notin> {''top'', ''bottom'', ''left'', ''right''}"
    by (simp add: toLowerCase_def lower_char_def)
  have c: "coord block0 = Some (1, 1)" by (simp add: block0_def)
  from slide_directions [of "''up''" block0 1 1] h
  have 1: "slide ''up'' block0 = Threw (InvalidDirection ''Invalid argument to Block.slide: up'') block0"
    by simp
  from slide_directions [of "''left''" block0 1 1] c
  have 2: "slide ''left'' block0 = Done (block0\<lparr>coord := Some (0, 1)\<rparr>)"
    by simp
  from h c 1 2 show ?thesis by simp
qed

text \<open>
  Claim C9 as stated fails: \<^verbatim>\<open>"TOP"\<close> is not one of the four values, and
  \<^verbatim>\<open>slide("TOP")\<close> moves the block up.
\<close>

theorem slide_uppercase_counterexample:
  "''TOP'' \<notin> {''top'', ''bottom'', ''left'', ''right''} \<and>
   slide ''TOP'' block0 = Done (block0\<lparr>coord := Some (1, 0)\<rparr>)"
  by (simp add: slide_def move_def Let_def toLowerCase_def lower_char_def block0_def)


subsection \<open>The flood fill\<close>

lemma and_then_Done: "and_then r (\<lambda>st. Some (Done st)) = r"
proof (cases r)
  case None
  then show ?thesis by simp
next
  case (Some out)
  then show ?thesis by (cases out) simp_all
qed

lemma eraseBlocks_Suc:
  "eraseBlocks (Suc n) this b st =
     (if b \<in> set (snd st) then Some (Done st)
      else case destroy b (fst st) of
             Threw e w \<Rightarrow> Some (Threw e (w, snd st))
           | Done w \<Rightarrow> visits (eraseBlocks n this) this b offsets (w, snd st @ [b]))"
proof -
  have n: "visits erase this b [] = (\<lambda>st. Some (Done st))" for erase
    by (rule ext) simp
  have c: "visits erase this b (d # ds) =
      (\<lambda>st. and_then (visit erase this b d st) (visits erase this b ds))" for erase d ds
    by (rule ext) simp
  have "visits erase this b [d] = visit erase this b d" for erase d
    by (intro ext) (simp add: and_then_Done n)
  then show ?thesis
    by (simp add: offsets_def c split: outcome.splits)
qed

lemma region_color: "b \<in> region w this \<Longrightarrow> color (blocks w b) = color (blocks w this)"
  by (induction rule: region.induct) (auto simp: adjacent_def)

lemma region_placed:
  assumes "consistent w" and "placed w this" and "b \<in> region w this"
  shows "placed w b"
  using assms(3)
proof (induction rule: region.induct)
  case start
  from assms(2) show ?case .
next
  case (step b b')
  from step(2) obtain c' where "slot w c' = Some b'"
    unfolding adjacent_def by blast
  with consistentD [OF assms(1) this] show ?case
    unfolding placed_def by blast
qed

lemma rows_destroy:
  "destroy b w = Done w' \<Longrightarrow> contents w' y = None \<longleftrightarrow> contents w y = None"
  by (auto simp: destroy_def split: option.splits prod.splits if_splits)

lemma slot_row: "slot w (x, y) = Some b \<Longrightarrow> contents w y \<noteq> None"
  by (auto simp: slot_def split: option.splits)

lemma destroy_Done:
  "coord (blocks w b) = Some (x, y) \<Longrightarrow> contents w y \<noteq> None \<Longrightarrow> \<exists>w'. destroy b w = Done w'"
  by (auto simp: destroy_def)

lemma destroy_emptied:
  assumes c: "consistent w0" and e: "emptied w0 ds w" and p: "placed w0 b"
  shows "\<exists>w'. destroy b w = Done w' \<and> emptied w0 (ds @ [b]) w'"
proof -
  from p obtain x y where xy: "coord (blocks w0 b) = Some (x, y)" "slot w0 (x, y) = Some b"
    unfolding placed_def by (metis surj_pair)
  from e have bl: "blocks w = blocks w0"
    and rows: "\<And>y. contents w y = None \<longleftrightarrow> contents w0 y = None"
    and sl: "\<And>c. slot w c = (case slot w0 c of None \<Rightarrow> None
                                | Some b \<Rightarrow> if b \<in> set ds then None else Some b)"
    unfolding emptied_def by blast+
  from slot_row [OF xy(2)] rows have "contents w y \<noteq> None" by simp
  with xy(1) bl obtain w' where d: "destroy b w = Done w'"
    using destroy_Done [of w b x y] by auto
  have 1: "blocks w' = blocks w0"
    using blocks_destroy [of b w] d bl by simp
  have 2: "contents w' y' = None \<longleftrightarrow> contents w0 y' = None" for y'
    using rows_destroy [OF d] rows by simp
  have 3: "slot w' c' = (case slot w0 c' of None \<Rightarrow> None
                         | Some b' \<Rightarrow> if b' \<in> set (ds @ [b]) then None else Some b')" for c'
  proof (cases "c' = (x, y)")
    case True
    then show ?thesis using xy bl by (simp add: slot_destroy [OF d])
  next
    case False
    have "slot w0 c' \<noteq> Some b"
      using consistentD [OF c, of c' b] xy(1) False by auto
    with False show ?thesis
      using xy(1) bl by (auto simp: slot_destroy [OF d] sl split: option.splits)
  qed
  from d 1 2 3 show ?thesis unfolding emptied_def by blast
qed

lemma card_region_less:
  "finite R \<Longrightarrow> b \<in> R \<Longrightarrow> b \<notin> set ds \<Longrightarrow> card (R - set (ds @ [b])) < card (R - set ds)"
  by (intro psubset_card_mono) auto

lemma card_region_mono:
  "finite R \<Longrightarrow> set ds \<subseteq> set ds' \<Longrightarrow> card (R - set ds') \<le> card (R - set ds)"
  by (intro card_mono) auto

lemma closed_new_trans:
  "closed_new w0 this ds ds1 \<Longrightarrow> closed_new w0 this ds1 ds2 \<Longrightarrow> set ds1 \<subseteq> set ds2 \<Longrightarrow>
   closed_new w0 this ds ds2"
  unfolding closed_new_def by blast

lemma closed_new_refl: "closed_new w0 this ds ds"
  unfolding closed_new_def by simp

lemma handled_mono: "handled w0 this b d ds \<Longrightarrow> set ds \<subseteq> set ds' \<Longrightarrow> handled w0 this b d ds'"
  unfolding handled_def by blast

lemma cell_slot: "contents w (snd c) \<noteq> None \<Longrightarrow> cell w c = Inr (slot w c)"
  by (auto simp: cell_def slot_def)

lemma cell_no_row: "contents w (snd c) = None \<Longrightarrow> cell w c = Inl TypeError"
  by (simp add: cell_def)

lemma framed_rows:
  assumes "framed w b" and "coord (blocks w b) = Some (x, y)" and "slot w (x, y) = Some b"
    and "d \<in> set offsets"
  shows "contents w (y + snd d) \<noteq> None"
proof -
  from assms(1,2) have "contents w (y - 1) \<noteq> None" "contents w (y + 1) \<noteq> None"
    unfolding framed_def by blast+
  moreover from slot_row [OF assms(3)] have "contents w y \<noteq> None" .
  ultimately show ?thesis using assms(4) by (auto simp: offsets_def)
qed

lemma visit_vpost:
  assumes c: "consistent w0" and p: "placed w0 this"
    and IH: "\<And>b' st'. good w0 this st' \<Longrightarrow> b' \<in> region w0 this \<Longrightarrow>
               card (region w0 this - set (snd st')) < n \<Longrightarrow>
               \<exists>r. erase b' st' = Some r \<and> post w0 this st' b' r"
    and g: "good w0 this st" and b: "b \<in> set (snd st)"
    and m: "card (region w0 this - set (snd st)) < n"
    and d: "d \<in> set offsets"
  shows "\<exists>r. visit erase this b d st = Some r \<and> vpost w0 this st b [d] r"
proof -
  from g have e: "emptied w0 (snd st) (fst st)" and sub: "set (snd st) \<subseteq> region w0 this"
    unfolding good_def by blast+
  from e have bl: "blocks (fst st) = blocks w0"
    and rows: "\<And>y. contents (fst st) y = None \<longleftrightarrow> contents w0 y = None"
    and sl: "\<And>c. slot (fst st) c = (case slot w0 c of None \<Rightarrow> None
                                | Some b \<Rightarrow> if b \<in> set (snd st) then None else Some b)"
    unfolding emptied_def by blast+
  from b sub have br: "b \<in> region w0 this" by blast
  from region_placed [OF c p br]
  obtain x y where xy: "coord (blocks w0 b) = Some (x, y)" "slot w0 (x, y) = Some b"
    unfolding placed_def by (metis surj_pair)
  let ?c = "(x + fst d, y + snd d)"
  have nb: "?c \<in> set (neighbours (x, y))"
    using d by (auto simp: offsets_def neighbours_def)
  have stay: "vpost w0 this st b [d] (Done st)"
    if "\<And>b'. slot w0 ?c = Some b' \<Longrightarrow> color (blocks w0 b') = color (blocks w0 this) \<Longrightarrow>
          b' \<in> set (snd st)"
    using that g xy(1) unfolding vpost_def handled_def by (simp add: closed_new_refl)
  show ?thesis
  proof (cases "contents w0 (y + snd d) = None")
    case True
    then have "cell (fst st) ?c = Inl TypeError"
      by (intro cell_no_row) (simp add: rows)
    then have v: "visit erase this b d st = Some (Threw TypeError st)"
      by (simp add: visit_def bl xy(1))
    have "\<not> all_framed w0 this"
      using framed_rows [OF _ xy d] True br unfolding all_framed_def by blast
    with g have "vpost w0 this st b [d] (Threw TypeError st)"
      unfolding vpost_def by simp
    with v show ?thesis by blast
  next
    case False
    then have cs: "cell (fst st) ?c = Inr (slot (fst st) ?c)"
      by (intro cell_slot) (simp add: rows)
    show ?thesis
    proof (cases "slot (fst st) ?c")
      case None
      then have v: "visit erase this b d st = Some (Done st)"
        by (simp add: visit_def bl xy(1) cs matchingColor_def)
      have "b' \<in> set (snd st)" if "slot w0 ?c = Some b'" for b'
        using None that sl [of ?c] by (simp split: if_splits)
      from stay [OF this] v show ?thesis by blast
    next
      case (Some b')
      with sl [of ?c] have s0: "slot w0 ?c = Some b'" and nd: "b' \<notin> set (snd st)"
        by (auto split: option.splits if_splits)
      show ?thesis
      proof (cases "color (blocks w0 b') = color (blocks w0 this)")
        case False
        then have v: "visit erase this b d st = Some (Done st)"
          by (simp add: visit_def bl xy(1) cs Some matchingColor_def)
        have "b'' \<in> set (snd st)"
          if "slot w0 ?c = Some b''" "color (blocks w0 b'') = color (blocks w0 this)" for b''
          using that s0 False by simp
        from stay [OF this] v show ?thesis by blast
      next
        case True
        then have v: "visit erase this b d st = erase b' st"
          by (simp add: visit_def bl xy(1) cs Some matchingColor_def)
        have "adjacent w0 this b b'"
          unfolding adjacent_def using xy(1) nb s0 True by blast
        with br have "b' \<in> region w0 this" by (rule region.step)
        from IH [OF g this m] obtain r where r: "erase b' st = Some r" "post w0 this st b' r"
          by blast
        have "handled w0 this b d (snd (state_of r))" if "returned r"
          using that r(2) s0 xy(1) unfolding post_def handled_def by simp
        with r(2) have "vpost w0 this st b [d] r"
          unfolding post_def vpost_def by simp
        with v r(1) show ?thesis by simp
      qed
    qed
  qed
qed

lemma visits_vpost:
  assumes c: "consistent w0" and p: "placed w0 this" and fin: "finite (region w0 this)"
    and IH: "\<And>b' st'. good w0 this st' \<Longrightarrow> b' \<in> region w0 this \<Longrightarrow>
               card (region w0 this - set (snd st')) < n \<Longrightarrow>
               \<exists>r. erase b' st' = Some r \<and> post w0 this st' b' r"
  shows "good w0 this st \<Longrightarrow> b \<in> set (snd st) \<Longrightarrow>
         card (region w0 this - set (snd st)) < n \<Longrightarrow> set ds \<subseteq> set offsets \<Longrightarrow>
         \<exists>r. visits erase this b ds st = Some r \<and> vpost w0 this st b ds r"
proof (induction ds arbitrary: st)
  case Nil
  then show ?case
    unfolding vpost_def by (simp add: closed_new_refl)
next
  case (Cons d ds)
  from Cons.prems(4) have d: "d \<in> set offsets" and ds: "set ds \<subseteq> set offsets"
    by simp_all
  from visit_vpost [OF c p IH Cons.prems(1,2,3) d]
  obtain r1 where r1: "visit erase this b d st = Some r1" "vpost w0 this st b [d] r1"
    by blast
  show ?case
  proof (cases r1)
    case (Threw e s1)
    with r1(1) have "visits erase this b (d # ds) st = Some (Threw e s1)"
      by simp
    moreover from r1(2) Threw have "vpost w0 this st b (d # ds) (Threw e s1)"
      unfolding vpost_def by simp
    ultimately show ?thesis by blast
  next
    case (Done s1)
    with r1(2) have g1: "good w0 this s1" and sub1: "set (snd st) \<subseteq> set (snd s1)"
      and cl1: "closed_new w0 this (snd st) (snd s1)" and h1: "handled w0 this b d (snd s1)"
      unfolding vpost_def by simp_all
    from sub1 Cons.prems(2) have b1: "b \<in> set (snd s1)" by blast
    from card_region_mono [OF fin sub1] Cons.prems(3)
    have m1: "card (region w0 this - set (snd s1)) < n" by simp
    from Cons.IH [OF g1 b1 m1 ds]
    obtain r2 where r2: "visits erase this b ds s1 = Some r2" "vpost w0 this s1 b ds r2"
      by blast
    from r2(2) have g2: "good w0 this (state_of r2)"
      and sub2: "set (snd s1) \<subseteq> set (snd (state_of r2))"
      and fr2: "all_framed w0 this \<longrightarrow> returned r2"
      unfolding vpost_def by blast+
    have "closed_new w0 this (snd st) (snd (state_of r2)) \<and>
          (\<forall>d' \<in> set (d # ds). handled w0 this b d' (snd (state_of r2)))" if "returned r2"
    proof -
      from r2(2) that have cl2: "closed_new w0 this (snd s1) (snd (state_of r2))"
        and h2: "\<forall>d' \<in> set ds. handled w0 this b d' (snd (state_of r2))"
        unfolding vpost_def by blast+
      from closed_new_trans [OF cl1 cl2 sub2] handled_mono [OF h1 sub2] h2
      show ?thesis by simp
    qed
    with g2 sub1 sub2 fr2 have "vpost w0 this st b (d # ds) r2"
      unfolding vpost_def by blast
    moreover from r1(1) Done r2(1) have "visits erase this b (d # ds) st = Some r2"
      by simp
    ultimately show ?thesis by blast
  qed
qed

lemma adjacent_offset:
  assumes "adjacent w this b b'"
  shows "\<exists>x y d. d \<in> set offsets \<and> coord (blocks w b) = Some (x, y) \<and>
           slot w (x + fst d, y + snd d) = Some b' \<and> color (blocks w b') = color (blocks w this)"
proof -
  from assms obtain x y c' where a: "coord (blocks w b) = Some (x, y)"
    "c' \<in> set (neighbours (x, y))" "slot w c' = Some b'"
    "color (blocks w b') = color (blocks w this)"
    unfolding adjacent_def by (metis surj_pair)
  from a(2) have "\<exists>d \<in> set offsets. c' = (x + fst d, y + snd d)"
    by (simp add: neighbours_def offsets_def)
  then obtain d where "d \<in> set offsets" "c' = (x + fst d, y + snd d)" ..
  with a show ?thesis by blast
qed

lemma eraseBlocks_post:
  assumes c: "consistent w0" and p: "placed w0 this" and fin: "finite (region w0 this)"
  shows "good w0 this st \<Longrightarrow> b \<in> region w0 this \<Longrightarrow>
         card (region w0 this - set (snd st)) < n \<Longrightarrow>
         \<exists>r. eraseBlocks n this b st = Some r \<and> post w0 this st b r"
proof (induction n arbitrary: b st)
  case 0
  then show ?case by simp
next
  case (Suc n)
  show ?case
  proof (cases "b \<in> set (snd st)")
    case True
    then have "eraseBlocks (Suc n) this b st = Some (Done st)"
      by simp
    moreover from Suc.prems(1) True have "post w0 this st b (Done st)"
      unfolding post_def by (simp add: closed_new_refl)
    ultimately show ?thesis by blast
  next
    case False
    from Suc.prems(1) have e: "emptied w0 (snd st) (fst st)" and dist: "distinct (snd st)"
      and sub: "set (snd st) \<subseteq> region w0 this"
      unfolding good_def by blast+
    from destroy_emptied [OF c e region_placed [OF c p Suc.prems(2)]]
    obtain w1 where w1: "destroy b (fst st) = Done w1" "emptied w0 (snd st @ [b]) w1"
      by blast
    let ?st1 = "(w1, snd st @ [b])"
    from w1(2) dist sub False Suc.prems(2) have g1: "good w0 this ?st1"
      unfolding good_def by simp
    from card_region_less [OF fin Suc.prems(2) False] Suc.prems(3)
    have m1: "card (region w0 this - set (snd ?st1)) < n" by simp
    have b1: "b \<in> set (snd ?st1)" by simp
    from visits_vpost [OF c p fin Suc.IH g1 b1 m1 subset_refl]
    obtain r where r: "visits (eraseBlocks n this) this b offsets ?st1 = Some r"
      "vpost w0 this ?st1 b offsets r"
      by blast
    from False w1(1) r(1) have res: "eraseBlocks (Suc n) this b st = Some r"
      by (simp only: eraseBlocks_Suc if_False outcome.case)
    from r(2) have g: "good w0 this (state_of r)"
      and sub1: "set (snd st @ [b]) \<subseteq> set (snd (state_of r))"
      and fr: "all_framed w0 this \<longrightarrow> returned r"
      unfolding vpost_def by simp_all
    have "closed_new w0 this (snd st) (snd (state_of r))" if ret: "returned r"
      unfolding closed_new_def
    proof (intro ballI allI impI)
      fix b1 b2
      assume b1: "b1 \<in> set (snd (state_of r)) - set (snd st)" and adj: "adjacent w0 this b1 b2"
      from r(2) ret have cl: "closed_new w0 this (snd st @ [b]) (snd (state_of r))"
        and h: "\<forall>d \<in> set offsets. handled w0 this b d (snd (state_of r))"
        unfolding vpost_def by simp_all
      show "b2 \<in> set (snd (state_of r))"
      proof (cases "b1 = b")
        case True
        from adjacent_offset [OF adj] True h show ?thesis
          unfolding handled_def by blast
      next
        case False
        with b1 have "b1 \<in> set (snd (state_of r)) - set (snd st @ [b])" by simp
        with cl adj show ?thesis unfolding closed_new_def by blast
      qed
    qed
    with g sub1 fr have "post w0 this st b r"
      unfolding post_def by simp
    with res show ?thesis by blast
  qed
qed

subsection \<open>The square check\<close>

lemma js_and_Inr: "js_and (Inr a) (Inr b) = Inr (a \<and> b)"
  by (cases a) simp_all

lemma js_or_Inr: "js_or (Inr a) (Inr b) = Inr (a \<or> b)"
  by (cases a) simp_all

lemma matchingAt_row:
  "contents w (snd c) \<noteq> None \<Longrightarrow> matchingAt w this c = Inr (matchingColor w this (slot w c))"
  by (simp add: matchingAt_def cell_slot)

lemma checkForClear_rows:
  assumes "contents w y \<noteq> None" and "contents w (y + 1) \<noteq> None"
  shows "checkForClear w this (x, y) = Inr (square_formed w this (x, y))"
  using assms
  by (simp add: checkForClear_def matchingAt_row js_and_Inr square_formed_def square_cells_def
      conj_ac)

lemma doClear_rows:
  assumes "coord (blocks w this) = Some (x, y)"
    and "contents w (y - 1) \<noteq> None" and "contents w y \<noteq> None" and "contents w (y + 1) \<noteq> None"
  shows "doClear w this = Inr (\<exists>c \<in> set (candidates (x, y)). square_formed w this c)"
proof -
  have "checkForClear w this (x', y) = Inr (square_formed w this (x', y))" for x'
    using assms(3,4) by (rule checkForClear_rows)
  moreover have "checkForClear w this (x', y - 1) = Inr (square_formed w this (x', y - 1))" for x'
    using checkForClear_rows [of w "y - 1" this x'] assms(2,3) by simp
  ultimately show ?thesis
    using assms(1) by (simp add: doClear_def js_or_Inr candidates_def disj_ac)
qed

lemma visit_grows:
  assumes "\<And>b' st' r'. erase b' st' = Some r' \<Longrightarrow> set (snd st') \<subseteq> set (snd (state_of r'))"
    and "visit erase this b d st = Some r"
  shows "set (snd st) \<subseteq> set (snd (state_of r))"
  using assms(2) assms(1)
  by (auto simp: visit_def split: option.splits sum.splits if_splits prod.splits)

lemma visits_grows:
  assumes "\<And>b' st' r'. erase b' st' = Some r' \<Longrightarrow> set (snd st') \<subseteq> set (snd (state_of r'))"
  shows "visits erase this b ds st = Some r \<Longrightarrow> set (snd st) \<subseteq> set (snd (state_of r))"
proof (induction ds arbitrary: st)
  case Nil
  then show ?case by auto
next
  case (Cons d ds)
  show ?case
  proof (cases "visit erase this b d st")
    case None
    with Cons.prems show ?thesis by simp
  next
    case (Some r1)
    have v: "set (snd st) \<subseteq> set (snd (state_of r1))"
      using assms Some by (rule visit_grows [where erase = erase])
    show ?thesis
    proof (cases r1)
      case (Done s1)
      with Cons.prems Some have "visits erase this b ds s1 = Some r" by simp
      from Cons.IH [OF this] v Done show ?thesis by auto
    next
      case (Threw e s1)
      with Cons.prems Some v show ?thesis by auto
    qed
  qed
qed

lemma eraseBlocks_grows:
  "eraseBlocks n this b st = Some r \<Longrightarrow> set (snd st) \<subseteq> set (snd (state_of r))"
proof (induction n arbitrary: b st r)
  case 0
  then show ?case by simp
next
  case (Suc n)
  show ?case
  proof (cases "b \<in> set (snd st)")
    case True
    with Suc.prems show ?thesis by auto
  next
    case False
    show ?thesis
    proof (cases "destroy b (fst st)")
      case (Threw e w1)
      with False Suc.prems show ?thesis by (auto simp only: eraseBlocks_Suc if_False outcome.case option.inject state_of.simps snd_conv)
    next
      case (Done w1)
      with False Suc.prems
      have "visits (eraseBlocks n this) this b offsets (w1, snd st @ [b]) = Some r"
        by (simp only: eraseBlocks_Suc if_False outcome.case)
      from visits_grows [where erase = "eraseBlocks n this", OF Suc.IH this]
      show ?thesis by auto
    qed
  qed
qed

lemma eraseBlocks_first:
  assumes "eraseBlocks n this b (w, []) = Some r" and "coord (blocks w b) = Some (x, y)"
    and "contents w y \<noteq> None"
  shows "b \<in> set (snd (state_of r))"
proof (cases n)
  case 0
  with assms(1) show ?thesis by simp
next
  case (Suc m)
  from destroy_Done [OF assms(2,3)] obtain w1 where "destroy b w = Done w1" by blast
  with assms(1) Suc
  have "visits (eraseBlocks m this) this b offsets (w1, [b]) = Some r"
    by (simp only: eraseBlocks_Suc fst_conv snd_conv list.set empty_iff if_False outcome.case append_Nil)
  from visits_grows [where erase = "eraseBlocks m this", OF eraseBlocks_grows this]
  show ?thesis by simp
qed

subsection \<open>Evaluation on the example grids\<close>

lemma eraseBlocks_numeral:
  "eraseBlocks (numeral k) this b st =
     (if b \<in> set (snd st) then Some (Done st)
      else case destroy b (fst st) of
             Threw e w \<Rightarrow> Some (Threw e (w, snd st))
           | Done w \<Rightarrow> visits (eraseBlocks (pred_numeral k) this) this b offsets (w, snd st @ [b]))"
  unfolding numeral_eq_Suc by (rule eraseBlocks_Suc)

lemma located_fields: "coord (located b c) = Some c" "color (located b c) = color b"
  by (simp_all add: located_def)

lemma colors: "color red = 0xFF0000" "color grey = 0x444444"
  by (simp_all add: red_def grey_def Block_def cfg0_def)

lemma world3_blocks:
  "blocks world3 10 = located red (1, 0)" "blocks world3 20 = located red (2, 0)"
  "blocks world3 11 = located red (1, 1)" "blocks world3 21 = located red (2, 1)"
  by (simp_all add: world3_def)

lemma world3_contents:
  "contents world3 = [0 \<mapsto> [1 \<mapsto> 10, 2 \<mapsto> 20], 1 \<mapsto> [1 \<mapsto> 11, 2 \<mapsto> 21]]"
  by (simp add: world3_def)

lemmas evaluation = clear_def doClear_def checkForClear_def matchingAt_def cell_def
  matchingColor_def destroy_def visit_def eraseBlocks_numeral offsets_def located_fields colors
  destroyed_by_def thrown_def

lemma world2_blocks:
  "blocks world2 11 = located red (1, 1)" "blocks world2 21 = located red (2, 1)"
  "blocks world2 12 = located red (1, 2)" "blocks world2 22 = located red (2, 2)"
  "blocks world2 31 = located grey (3, 1)"
  by (simp_all add: world2_def)

lemma world2_contents:
  "contents world2 = [0 \<mapsto> Map.empty, 1 \<mapsto> [1 \<mapsto> 11, 2 \<mapsto> 21, 3 \<mapsto> 31],
                      2 \<mapsto> [1 \<mapsto> 12, 2 \<mapsto> 22], 3 \<mapsto> Map.empty]"
  by (simp add: world2_def)

lemma world4_blocks: "blocks world4 10 = located red (1, 0)"
  by (simp add: world4_def)

lemma world4_contents:
  "contents world4 = [0 \<mapsto> [1 \<mapsto> 10], 1 \<mapsto> Map.empty, 2 \<mapsto> Map.empty]"
  by (simp add: world4_def)

lemma slot_world2:
  "slot world2 c =
     (if c = (1, 1) then Some 11 else if c = (2, 1) then Some 21 else if c = (3, 1) then Some 31
      else if c = (1, 2) then Some 12 else if c = (2, 2) then Some 22 else None)"
  by (auto simp: slot_def world2_contents prod_eq_iff)

lemma slot_world3:
  "slot world3 c =
     (if c = (1, 0) then Some 10 else if c = (2, 0) then Some 20
      else if c = (1, 1) then Some 11 else if c = (2, 1) then Some 21 else None)"
  by (auto simp: slot_def world3_contents prod_eq_iff)

lemma slot_world4: "slot world4 c = (if c = (1, 0) then Some 10 else None)"
  by (auto simp: slot_def world4_contents prod_eq_iff)

lemma consistent_world2: "consistent world2"
  unfolding consistent_def slot_world2
  by (auto simp: world2_blocks located_fields split: if_splits)

lemma placed_world2: "placed world2 11"
  unfolding placed_def by (simp add: world2_blocks located_fields slot_world2)

lemma region_world2: "region world2 11 \<subseteq> {11, 21, 12, 22}"
proof
  fix b
  assume b: "b \<in> region world2 11"
  from region_placed [OF consistent_world2 placed_world2 b]
  have "b \<in> {11, 21, 12, 22, 31}"
    unfolding placed_def slot_world2 by (auto split: if_splits)
  moreover from region_color [OF b] have "b \<noteq> 31"
    by (auto simp: world2_blocks located_fields colors)
  ultimately show "b \<in> {11, 21, 12, 22}" by blast
qed

lemma finite_region_world2: "finite (region world2 11)"
  by (rule finite_subset [OF region_world2]) simp

lemma card_region_world2: "card (region world2 11) < 10"
proof -
  have "card (region world2 11) \<le> card {11, 21, 12, 22 :: nat}"
    by (rule card_mono [OF _ region_world2]) simp
  then show ?thesis by simp
qed

lemma all_framed_world2: "all_framed world2 11"
  unfolding all_framed_def framed_def
  using region_world2 by (auto simp: world2_blocks located_fields world2_contents)

lemma doClear_world2: "doClear world2 11 = Inr True"
  by (simp add: evaluation world2_blocks world2_contents)

subsection \<open>clear\<close>

lemma good_start: "good w this (w, [])"
  unfolding good_def emptied_def by (auto split: option.splits)

lemma clear_post:
  assumes "consistent w" and "placed w this" and "finite (region w this)"
    and "card (region w this) < fuel"
  shows "\<exists>r. eraseBlocks fuel this this (w, []) = Some r \<and> post w this (w, []) this r"
  using eraseBlocks_post [OF assms(1,2,3) good_start region.start, of fuel] assms(4) by simp

lemma closed_region:
  assumes "this \<in> set ds" and "closed_new w this [] ds"
  shows "region w this \<subseteq> set ds"
proof
  fix b
  assume "b \<in> region w this"
  then show "b \<in> set ds"
  proof (induction rule: region.induct)
    case start
    from assms(1) show ?case .
  next
    case (step b b')
    with assms(2) show ?case unfolding closed_new_def by simp
  qed
qed

lemma placed_rows:
  assumes "placed w this" and "framed w this" and "coord (blocks w this) = Some (x, y)"
  shows "contents w (y - 1) \<noteq> None" "contents w y \<noteq> None" "contents w (y + 1) \<noteq> None"
proof -
  from assms(1,3) have "slot w (x, y) = Some this" unfolding placed_def by auto
  from slot_row [OF this] show "contents w y \<noteq> None" .
  from assms(2,3) show "contents w (y - 1) \<noteq> None" "contents w (y + 1) \<noteq> None"
    unfolding framed_def by blast+
qed

lemma doClear_framed:
  assumes "placed w this" and "framed w this"
  shows "\<exists>g. doClear w this = Inr g"
proof -
  from assms(1) obtain x y where c: "coord (blocks w this) = Some (x, y)"
    unfolding placed_def by (metis surj_pair)
  from doClear_rows [OF c placed_rows [OF assms c]] show ?thesis by blast
qed

lemma clear_Done:
  assumes "consistent w" and "placed w this" and "finite (region w this)"
    and "all_framed w this" and "card (region w this) < fuel"
  shows "\<exists>w' ds. clear fuel this w = Some (Done (w', ds)) \<and> emptied w ds w' \<and> distinct ds \<and>
           (doClear w this = Inr True \<longrightarrow> set ds = region w this) \<and>
           (doClear w this = Inr False \<longrightarrow> ds = [] \<and> w' = w)"
proof -
  from assms(4) have "framed w this"
    unfolding all_framed_def using region.start by blast
  from doClear_framed [OF assms(2) this] obtain g where g: "doClear w this = Inr g" by blast
  show ?thesis
  proof (cases g)
    case False
    with g have "clear fuel this w = Some (Done (w, []))" by (simp add: clear_def)
    moreover have "emptied w [] w" using good_start [of w this] by (simp add: good_def)
    ultimately show ?thesis using g False by simp
  next
    case True
    from clear_post [OF assms(1,2,3,5)] obtain r
      where r: "eraseBlocks fuel this this (w, []) = Some r" "post w this (w, []) this r"
      by blast
    from r(2) assms(4) have ret: "returned r" unfolding post_def by blast
    then obtain w' ds where d: "r = Done (w', ds)" by (cases r) auto
    from r(2) d have p: "emptied w ds w'" "distinct ds" "set ds \<subseteq> region w this"
      "this \<in> set ds" "closed_new w this [] ds"
      unfolding post_def good_def by simp_all
    from closed_region [OF p(4,5)] p(3) have "set ds = region w this" by blast
    moreover from g True r(1) d have "clear fuel this w = Some (Done (w', ds))"
      by (simp add: clear_def)
    ultimately show ?thesis using p(1,2) g True by simp
  qed
qed


text \<open>
  Where the rows exist the code does what its comments say. On a consistent grid,
  for a placed block whose \<^verbatim>\<open>clear\<close> passes the square check and whose region has a
  row above and below each of its blocks, \<^verbatim>\<open>clear\<close> returns, the blocks destroyed are
  exactly the region of the triggering block (same colour, connected up, down, left
  and right), each destroyed once, and the grid afterwards is the grid before with
  exactly their slots emptied.
\<close>

lemma flood_fill_region:
  assumes "consistent w" and "placed w this" and "finite (region w this)"
    and "all_framed w this" and "doClear w this = Inr True" and "card (region w this) < fuel"
  shows "\<exists>w' ds. clear fuel this w = Some (Done (w', ds)) \<and> set ds = region w this \<and>
           distinct ds \<and> emptied w ds w'"
  using clear_Done [OF assms(1,2,3,4,6)] assms(5) by blast

text \<open>
  Under the same conditions \<^verbatim>\<open>clear\<close> destroys blocks exactly when one of the four
  candidate squares with bottom-left corner \<open>(x, y)\<close>, \<open>(x - 1, y)\<close>, \<open>(x, y - 1)\<close>,
  \<open>(x - 1, y - 1)\<close> has its four cells occupied by blocks of the block's colour, and
  otherwise leaves the grid as it was.
\<close>

lemma clear_gate:
  assumes "consistent w" and "placed w this" and "finite (region w this)"
    and "all_framed w this" and "card (region w this) < fuel"
    and "coord (blocks w this) = Some (x, y)"
  shows "\<exists>w' ds. clear fuel this w = Some (Done (w', ds)) \<and>
           (ds \<noteq> [] \<longleftrightarrow> (\<exists>c \<in> set (candidates (x, y)). square_formed w this c)) \<and>
           (ds = [] \<longrightarrow> w' = w)"
proof -
  from assms(4) have f: "framed w this"
    unfolding all_framed_def using region.start by blast
  have g: "doClear w this = Inr (\<exists>c \<in> set (candidates (x, y)). square_formed w this c)"
    using assms(6) placed_rows [OF assms(2) f assms(6)] by (rule doClear_rows)
  from clear_Done [OF assms(1,2,3,4,5)] obtain w' ds
    where d: "clear fuel this w = Some (Done (w', ds))"
      and t: "doClear w this = Inr True \<longrightarrow> set ds = region w this"
      and n: "doClear w this = Inr False \<longrightarrow> ds = [] \<and> w' = w"
    by blast
  show ?thesis
  proof (cases "\<exists>c \<in> set (candidates (x, y)). square_formed w this c")
    case True
    with g t have "set ds = region w this" by simp
    with region.start [of this w] have "ds \<noteq> []" by auto
    with d True show ?thesis by blast
  next
    case False
    with g n have "ds = [] \<and> w' = w" by simp
    with d False show ?thesis by blast
  qed
qed

lemma placed_world3: "placed world3 10" "placed world3 11"
  unfolding placed_def by (simp_all add: world3_blocks located_fields slot_world3)

lemma matching_world3:
  "matchingColor world3 this (slot world3 c) \<longleftrightarrow>
     c \<in> {(1, 0), (2, 0), (1, 1), (2, 1)} \<and> color (blocks world3 this) = 0xFF0000"
  by (auto simp: slot_world3 matchingColor_def world3_blocks located_fields colors)

text \<open>
  Claim C1: the code fails. \<^verbatim>\<open>checkForClear\<close> reads \<^verbatim>\<open>grid.contents[coord.y+1]\<close> of
  each candidate square without a test that the row exists. On a grid of the two
  rows 0 and 1 that a red square fills, the block at \<open>(1, 1)\<close> has the candidate
  square with bottom-left corner \<open>(1, 0)\<close> formed: its four cells hold blocks of the
  block's colour, and \<^verbatim>\<open>checkForClear\<close> on it answers true. But \<^verbatim>\<open>clear\<close> tests the
  candidate at \<open>(1, 1)\<close> first, which reads row 2, and throws; nothing is destroyed.
\<close>

theorem clear_gate_last_row:
  "placed world3 11 \<and> coord (blocks world3 11) = Some (1, 1) \<and>
   matchingColor world3 11 (slot world3 (1, 0)) \<and> matchingColor world3 11 (slot world3 (1, 1)) \<and>
   matchingColor world3 11 (slot world3 (2, 0)) \<and> matchingColor world3 11 (slot world3 (2, 1)) \<and>
   checkForClear world3 11 (1, 0) = Inr True \<and>
   contents world3 2 = None \<and>
   clear 10 11 world3 = Some (Threw TypeError (world3, []))"
proof -
  have "checkForClear world3 11 (1, 0) = Inr True"
    "clear 10 11 world3 = Some (Threw TypeError (world3, []))"
    by (simp_all add: evaluation world3_blocks world3_contents)
  then show ?thesis
    using placed_world3
    by (simp add: matching_world3 world3_blocks located_fields colors world3_contents)
qed

text \<open>
  Claim C2: the code fails. \<^verbatim>\<open>eraseBlocks\<close> reads \<^verbatim>\<open>grid.contents[block.coord.y+1]\<close>
  and \<^verbatim>\<open>grid.contents[block.coord.y-1]\<close> without a test that the row exists. On the
  same grid, \<^verbatim>\<open>clear\<close> on the block at \<open>(1, 0)\<close> passes the square check and destroys
  that block and the one above it; then the read of row 2 throws. The blocks at
  \<open>(2, 0)\<close> and \<open>(2, 1)\<close>, of the same colour and adjacent to the destroyed ones,
  stay in the grid.
\<close>

theorem flood_fill_first_row:
  "placed world3 10 \<and> coord (blocks world3 10) = Some (1, 0) \<and>
   doClear world3 10 = Inr True \<and>
   slot world3 (2, 0) = Some 20 \<and> color (blocks world3 20) = color (blocks world3 10) \<and>
   slot world3 (2, 1) = Some 21 \<and> color (blocks world3 21) = color (blocks world3 10) \<and>
   contents world3 2 = None \<and>
   thrown (clear 10 10 world3) = Some TypeError \<and>
   destroyed_by (clear 10 10 world3) = [10, 11] \<and>
   slot (fst (state_of (the (clear 10 10 world3)))) (2, 0) = Some 20 \<and>
   slot (fst (state_of (the (clear 10 10 world3)))) (2, 1) = Some 21"
proof -
  have "doClear world3 10 = Inr True"
    "thrown (clear 10 10 world3) = Some TypeError"
    "destroyed_by (clear 10 10 world3) = [10, 11]"
    "slot (fst (state_of (the (clear 10 10 world3)))) (2, 0) = Some 20"
    "slot (fst (state_of (the (clear 10 10 world3)))) (2, 1) = Some 21"
    by (simp_all add: evaluation world3_blocks world3_contents slot_def)
  then show ?thesis
    using placed_world3
    by (simp add: slot_world3 world3_blocks located_fields colors world3_contents)
qed

lemma consistent_world4: "consistent world4"
  unfolding consistent_def slot_world4
  by (auto simp: world4_blocks located_fields split: if_splits)

text \<open>
  Claim C3: the code fails. A neighbour outside the columns of an existing row reads
  as \<^verbatim>\<open>undefined\<close> and does not match, but a neighbour in a row that does not exist
  makes the read throw: \<^verbatim>\<open>grid.contents[y]\<close> is \<^verbatim>\<open>undefined\<close> and is indexed. For a
  single block at \<open>(1, 0)\<close> of a grid of rows 0 to 2, the cell \<open>(0, 0)\<close> left of it
  is not matching, the cell \<open>(1, -1)\<close> cannot be read, and \<^verbatim>\<open>clear\<close> throws.
\<close>

theorem clear_first_row:
  "placed world4 10 \<and> coord (blocks world4 10) = Some (1, 0) \<and>
   contents world4 (- 1) = None \<and>
   matchingAt world4 10 (0, 0) = Inr False \<and>
   matchingAt world4 10 (1, - 1) = Inl TypeError \<and>
   clear 10 10 world4 = Some (Threw TypeError (world4, []))"
proof -
  have "placed world4 10"
    unfolding placed_def by (simp add: world4_blocks located_fields slot_world4)
  moreover have "clear 10 10 world4 = Some (Threw TypeError (world4, []))"
    "matchingAt world4 10 (0, 0) = Inr False"
    "matchingAt world4 10 (1, - 1) = Inl TypeError"
    by (simp_all add: evaluation world4_blocks world4_contents)
  ultimately show ?thesis
    by (simp add: world4_blocks located_fields world4_contents)
qed

lemma js_and_True: "js_and a b = Inr True \<longleftrightarrow> a = Inr True \<and> b = Inr True"
  by (cases "(a, b)" rule: js_and.cases) auto

lemma matchingAt_True: "matchingAt w this c = Inr True \<Longrightarrow> matchingColor w this (slot w c)"
  by (auto simp: matchingAt_def cell_def slot_def split: option.splits)

lemma checkForClear_True: "checkForClear w this c = Inr True \<Longrightarrow> square_formed w this c"
  by (cases c) (auto simp: checkForClear_def js_and_True square_formed_def square_cells_def
      dest: matchingAt_True)

lemma square_formed_color:
  "square_formed w this c \<Longrightarrow> c' \<in> set (square_cells c) \<Longrightarrow> slot w c' = Some b \<Longrightarrow>
   color (blocks w b) = color (blocks w this)"
  unfolding square_formed_def matchingColor_def by fastforce

lemma emptied_keeps:
  assumes "emptied w ds w'" and "slot w c = Some b" and "b \<notin> set ds"
  shows "slot w' c = Some b" "blocks w' = blocks w"
proof -
  from assms(1) have s: "slot w' c = (case slot w c of None \<Rightarrow> None
      | Some b \<Rightarrow> if b \<in> set ds then None else Some b)"
    and b: "blocks w' = blocks w"
    unfolding emptied_def by blast+
  from s assms(2,3) show "slot w' c = Some b" by simp
  from b show "blocks w' = blocks w" .
qed

lemma clear_good:
  assumes "consistent w" and "placed w this" and "finite (region w this)"
    and "card (region w this) < fuel"
  shows "\<exists>r. clear fuel this w = Some r \<and> good w this (state_of r)"
proof (cases "doClear w this = Inr True")
  case True
  from clear_post [OF assms] obtain r
    where "eraseBlocks fuel this this (w, []) = Some r" "post w this (w, []) this r"
    by blast
  with True show ?thesis by (simp add: clear_def post_def)
next
  case False
  then have "clear fuel this w = Some (Threw TypeError (w, [])) \<or>
             clear fuel this w = Some (Done (w, [])) \<or>
             (\<exists>e. clear fuel this w = Some (Threw e (w, [])))"
    by (auto simp: clear_def split: sum.splits bool.splits)
  then show ?thesis using good_start [of w this] by auto
qed

text \<open>
  Whether it returns or throws, \<^verbatim>\<open>clear\<close> destroys only blocks of the triggering
  block's colour and leaves every slot that holds a block of another colour as it
  was; it changes no block.
\<close>

lemma clear_spares:
  assumes "consistent w" and "placed w this" and "finite (region w this)"
    and "card (region w this) < fuel"
  shows "\<exists>r. clear fuel this w = Some r \<and>
           (\<forall>b \<in> set (snd (state_of r)). color (blocks w b) = color (blocks w this)) \<and>
           (\<forall>c b. slot w c = Some b \<and> color (blocks w b) \<noteq> color (blocks w this) \<longrightarrow>
              slot (fst (state_of r)) c = Some b) \<and>
           blocks (fst (state_of r)) = blocks w"
proof -
  from clear_good [OF assms] obtain r
    where r: "clear fuel this w = Some r" "good w this (state_of r)"
    by blast
  from r(2) have e: "emptied w (snd (state_of r)) (fst (state_of r))"
    and sub: "set (snd (state_of r)) \<subseteq> region w this"
    unfolding good_def by blast+
  have col: "color (blocks w b) = color (blocks w this)" if "b \<in> set (snd (state_of r))" for b
    using region_color [of b w this] sub that by auto
  have keep: "slot (fst (state_of r)) c = Some b"
    if "slot w c = Some b \<and> color (blocks w b) \<noteq> color (blocks w this)" for c b
  proof -
    from that col have n: "b \<notin> set (snd (state_of r))" by blast
    from that have s: "slot w c = Some b" by simp
    from emptied_keeps(1) [OF e s n] show ?thesis .
  qed
  from e have "blocks (fst (state_of r)) = blocks w" unfolding emptied_def by blast
  with r(1) col keep show ?thesis by blast
qed

text \<open>
  Claim C4, amended. When \<^verbatim>\<open>clear\<close> is called on a placed block of a consistent grid
  whose colour is not the unbreakable sentinel, then whether it returns or throws, no
  block of the sentinel colour is destroyed, every slot that held one still holds it,
  and no candidate square with a sentinel-coloured cell passes \<^verbatim>\<open>checkForClear\<close>.
\<close>

theorem unbreakable_immune:
  assumes "consistent w" and "placed w this" and "finite (region w this)"
    and "card (region w this) < fuel"
    and "color (blocks w this) \<noteq> color_unbreakable cfg"
  shows "(\<exists>r. clear fuel this w = Some r \<and>
            (\<forall>b \<in> set (snd (state_of r)). color (blocks w b) \<noteq> color_unbreakable cfg) \<and>
            (\<forall>c b. slot w c = Some b \<and> color (blocks w b) = color_unbreakable cfg \<longrightarrow>
               slot (fst (state_of r)) c = Some b \<and>
               color (blocks (fst (state_of r)) b) = color_unbreakable cfg)) \<and>
         (\<forall>c c' b. c' \<in> set (square_cells c) \<and> slot w c' = Some b \<and>
            color (blocks w b) = color_unbreakable cfg \<longrightarrow>
            \<not> square_formed w this c \<and> checkForClear w this c \<noteq> Inr True)"
proof (intro conjI allI impI)
  from clear_spares [OF assms(1,2,3,4)] obtain r
    where r: "clear fuel this w = Some r"
      "\<forall>b \<in> set (snd (state_of r)). color (blocks w b) = color (blocks w this)"
      "\<forall>c b. slot w c = Some b \<and> color (blocks w b) \<noteq> color (blocks w this) \<longrightarrow>
         slot (fst (state_of r)) c = Some b"
      "blocks (fst (state_of r)) = blocks w"
    by blast
  from r(2) assms(5)
  have col: "\<forall>b \<in> set (snd (state_of r)). color (blocks w b) \<noteq> color_unbreakable cfg"
    by simp
  from r(3,4) assms(5)
  have keep: "\<forall>c b. slot w c = Some b \<and> color (blocks w b) = color_unbreakable cfg \<longrightarrow>
      slot (fst (state_of r)) c = Some b \<and>
      color (blocks (fst (state_of r)) b) = color_unbreakable cfg"
    by simp
  from r(1) col keep
  show "\<exists>r. clear fuel this w = Some r \<and>
            (\<forall>b \<in> set (snd (state_of r)). color (blocks w b) \<noteq> color_unbreakable cfg) \<and>
            (\<forall>c b. slot w c = Some b \<and> color (blocks w b) = color_unbreakable cfg \<longrightarrow>
               slot (fst (state_of r)) c = Some b \<and>
               color (blocks (fst (state_of r)) b) = color_unbreakable cfg)"
    by blast
next
  fix c c' b
  assume a: "c' \<in> set (square_cells c) \<and> slot w c' = Some b \<and>
            color (blocks w b) = color_unbreakable cfg"
  with square_formed_color [of w this c c' b] assms(5)
  show "\<not> square_formed w this c" by auto
  with checkForClear_True [of w this c]
  show "checkForClear w this c \<noteq> Inr True" by blast
qed

theorem unbreakable_immune_witness:
  "consistent world2 \<and> placed world2 11 \<and> finite (region world2 11) \<and>
   card (region world2 11) < 10 \<and> color (blocks world2 11) \<noteq> color_unbreakable cfg0 \<and>
   slot world2 (3, 1) = Some 31 \<and> color (blocks world2 31) = color_unbreakable cfg0 \<and>
   (\<exists>r. clear 10 11 world2 = Some r \<and> 31 \<notin> set (snd (state_of r)) \<and>
        slot (fst (state_of r)) (3, 1) = Some 31) \<and>
   (3, 1) \<in> set (square_cells (2, 1)) \<and> \<not> square_formed world2 11 (2, 1) \<and>
   checkForClear world2 11 (2, 1) \<noteq> Inr True"
proof -
  have c: "color (blocks world2 11) \<noteq> color_unbreakable cfg0"
    by (simp add: world2_blocks located_fields colors cfg0_def)
  have u: "slot world2 (3, 1) = Some 31" "color (blocks world2 31) = color_unbreakable cfg0"
    by (simp_all add: slot_world2 world2_blocks located_fields colors cfg0_def)
  note t = unbreakable_immune [OF consistent_world2 placed_world2 finite_region_world2
      card_region_world2 c]
  from t [THEN conjunct1] obtain r where r: "clear 10 11 world2 = Some r"
    "\<forall>b \<in> set (snd (state_of r)). color (blocks world2 b) \<noteq> color_unbreakable cfg0"
    "\<forall>c b. slot world2 c = Some b \<and> color (blocks world2 b) = color_unbreakable cfg0 \<longrightarrow>
       slot (fst (state_of r)) c = Some b \<and>
       color (blocks (fst (state_of r)) b) = color_unbreakable cfg0"
    by blast
  from r(2) u(2) have "31 \<notin> set (snd (state_of r))" by blast
  moreover from r(3) u have "slot (fst (state_of r)) (3, 1) = Some 31" by blast
  ultimately have 1: "\<exists>r. clear 10 11 world2 = Some r \<and> 31 \<notin> set (snd (state_of r)) \<and>
        slot (fst (state_of r)) (3, 1) = Some 31"
    using r(1) by blast
  have 2: "(3, 1) \<in> set (square_cells (2, 1))" by (simp add: square_cells_def)
  from t [THEN conjunct2] 2 u
  have 3: "\<not> square_formed world2 11 (2, 1) \<and> checkForClear world2 11 (2, 1) \<noteq> Inr True"
    by blast
  from consistent_world2 placed_world2 finite_region_world2 card_region_world2 c u 1 2 3
  show ?thesis by (intro conjI) simp_all
qed

lemma world5_blocks:
  "blocks world5 11 = located grey (1, 1)" "blocks world5 21 = located grey (2, 1)"
  "blocks world5 12 = located grey (1, 2)" "blocks world5 22 = located grey (2, 2)"
  by (simp_all add: world5_def)

lemma world5_contents:
  "contents world5 = [0 \<mapsto> Map.empty, 1 \<mapsto> [1 \<mapsto> 11, 2 \<mapsto> 21],
                      2 \<mapsto> [1 \<mapsto> 12, 2 \<mapsto> 22], 3 \<mapsto> Map.empty]"
  by (simp add: world5_def)

lemma slot_world5:
  "slot world5 c =
     (if c = (1, 1) then Some 11 else if c = (2, 1) then Some 21
      else if c = (1, 2) then Some 12 else if c = (2, 2) then Some 22 else None)"
  by (auto simp: slot_def world5_contents prod_eq_iff)

lemma consistent_world5: "consistent world5"
  unfolding consistent_def slot_world5
  by (auto simp: world5_blocks located_fields split: if_splits)

lemma placed_world5: "placed world5 11" "placed world5 22"
  unfolding placed_def by (simp_all add: world5_blocks located_fields slot_world5)

text \<open>
  Claim C4 as stated fails for a block of the sentinel colour on which \<^verbatim>\<open>clear\<close> is
  invoked: \<^verbatim>\<open>matchingColor\<close> compares colours and has no test for the sentinel. In a
  square of four sentinel-coloured blocks, \<^verbatim>\<open>clear\<close> on the block at \<open>(1, 1)\<close> returns
  and has destroyed all four.
\<close>

theorem unbreakable_trigger_counterexample:
  "consistent world5 \<and> placed world5 11 \<and>
   color (blocks world5 11) = color_unbreakable cfg0 \<and>
   color (blocks world5 12) = color_unbreakable cfg0 \<and>
   color (blocks world5 21) = color_unbreakable cfg0 \<and>
   color (blocks world5 22) = color_unbreakable cfg0 \<and>
   doClear world5 11 = Inr True \<and>
   (\<exists>st. clear 10 11 world5 = Some (Done st)) \<and>
   destroyed_by (clear 10 11 world5) = [11, 12, 22, 21]"
proof -
  have "doClear world5 11 = Inr True"
    "\<exists>st. clear 10 11 world5 = Some (Done st)"
    "destroyed_by (clear 10 11 world5) = [11, 12, 22, 21]"
    by (simp_all add: evaluation world5_blocks world5_contents)
  then show ?thesis
    using consistent_world5 placed_world5
    by (simp add: world5_blocks located_fields colors cfg0_def)
qed

text \<open>
  Claim C10, amended. A block constructed without a colour, or with the colour 0,
  gets the unbreakable sentinel colour. On a consistent grid, a \<^verbatim>\<open>clear\<close> invoked on
  a placed block of another colour, whether it returns or throws, does not destroy a
  block that has the colour of such a block, and leaves it in its slot.
\<close>

theorem Block_default_color:
  assumes "col = None \<or> col = Some 0"
  shows "color (Block cfg dir pos off col) = color_unbreakable cfg \<and>
    (\<forall>w this b fuel. consistent w \<and> placed w this \<and> finite (region w this) \<and>
        card (region w this) < fuel \<and> color (blocks w this) \<noteq> color_unbreakable cfg \<and>
        color (blocks w b) = color (Block cfg dir pos off col) \<longrightarrow>
        (\<exists>r. clear fuel this w = Some r \<and> b \<notin> set (snd (state_of r)) \<and>
           (\<forall>c. slot w c = Some b \<longrightarrow> slot (fst (state_of r)) c = Some b) \<and>
           blocks (fst (state_of r)) b = blocks w b))"
proof (intro conjI allI impI)
  from assms show s: "color (Block cfg dir pos off col) = color_unbreakable cfg"
    by (auto simp: Block_def)
  fix w this b fuel
  assume a: "consistent w \<and> placed w this \<and> finite (region w this) \<and>
        card (region w this) < fuel \<and> color (blocks w this) \<noteq> color_unbreakable cfg \<and>
        color (blocks w b) = color (Block cfg dir pos off col)"
  with s have n: "color (blocks w b) \<noteq> color (blocks w this)" by simp
  from a clear_spares [of w this fuel] obtain r
    where r: "clear fuel this w = Some r"
      "\<forall>b \<in> set (snd (state_of r)). color (blocks w b) = color (blocks w this)"
      "\<forall>c b. slot w c = Some b \<and> color (blocks w b) \<noteq> color (blocks w this) \<longrightarrow>
         slot (fst (state_of r)) c = Some b"
      "blocks (fst (state_of r)) = blocks w"
    by blast
  from r(2) n have "b \<notin> set (snd (state_of r))" by blast
  moreover from r(3) n have "\<forall>c. slot w c = Some b \<longrightarrow> slot (fst (state_of r)) c = Some b"
    by blast
  ultimately show "\<exists>r. clear fuel this w = Some r \<and> b \<notin> set (snd (state_of r)) \<and>
           (\<forall>c. slot w c = Some b \<longrightarrow> slot (fst (state_of r)) c = Some b) \<and>
           blocks (fst (state_of r)) b = blocks w b"
    using r(1,4) by auto
qed

theorem Block_default_color_witness:
  "color (Block cfg0 ''top'' 0 0 None) = 0x444444 \<and>
   color (Block cfg0 ''left'' 3 0 (Some 0)) = 0x444444 \<and>
   color (Block cfg0 ''left'' 3 0 (Some 0xFF0000)) = 0xFF0000 \<and>
   blocks world2 31 = (Block cfg0 ''top'' 0 0 None)\<lparr>coord := Some (3, 1)\<rparr> \<and>
   slot world2 (3, 1) = Some 31 \<and> consistent world2 \<and> placed world2 11 \<and>
   color (blocks world2 11) = 0xFF0000 \<and>
   (\<exists>r. clear 10 11 world2 = Some r \<and> 31 \<notin> set (snd (state_of r)) \<and>
      slot (fst (state_of r)) (3, 1) = Some 31 \<and>
      blocks (fst (state_of r)) 31 = (Block cfg0 ''top'' 0 0 None)\<lparr>coord := Some (3, 1)\<rparr>)"
proof -
  note t = Block_default_color [of None cfg0 "''top''" 0 0]
  from t have 1: "color (Block cfg0 ''top'' 0 0 None) = 0x444444" by (simp add: cfg0_def)
  from Block_default_color [of "Some 0" cfg0 "''left''" 3 0]
  have 2: "color (Block cfg0 ''left'' 3 0 (Some 0)) = 0x444444" by (simp add: cfg0_def)
  have 3: "color (Block cfg0 ''left'' 3 0 (Some 0xFF0000)) = 0xFF0000"
    by (simp add: Block_def)
  have b: "blocks world2 31 = (Block cfg0 ''top'' 0 0 None)\<lparr>coord := Some (3, 1)\<rparr>"
    by (simp add: world2_blocks located_def grey_def)
  have s: "slot world2 (3, 1) = Some 31" by (simp add: slot_world2)
  have c: "color (blocks world2 11) = 0xFF0000"
    by (simp add: world2_blocks located_fields colors)
  have h: "consistent world2 \<and> placed world2 11 \<and> finite (region world2 11) \<and>
        card (region world2 11) < 10 \<and> color (blocks world2 11) \<noteq> color_unbreakable cfg0 \<and>
        color (blocks world2 31) = color (Block cfg0 ''top'' 0 0 None)"
    using consistent_world2 placed_world2 finite_region_world2 card_region_world2 c b
    by (simp add: cfg0_def)
  from t have "\<forall>w this b fuel. consistent w \<and> placed w this \<and> finite (region w this) \<and>
        card (region w this) < fuel \<and> color (blocks w this) \<noteq> color_unbreakable cfg0 \<and>
        color (blocks w b) = color (Block cfg0 ''top'' 0 0 None) \<longrightarrow>
        (\<exists>r. clear fuel this w = Some r \<and> b \<notin> set (snd (state_of r)) \<and>
           (\<forall>c. slot w c = Some b \<longrightarrow> slot (fst (state_of r)) c = Some b) \<and>
           blocks (fst (state_of r)) b = blocks w b)"
    by simp
  with h have "\<exists>r. clear 10 11 world2 = Some r \<and> 31 \<notin> set (snd (state_of r)) \<and>
           (\<forall>c. slot world2 c = Some 31 \<longrightarrow> slot (fst (state_of r)) c = Some 31) \<and>
           blocks (fst (state_of r)) 31 = blocks world2 31"
    by blast
  with s b have 4: "\<exists>r. clear 10 11 world2 = Some r \<and> 31 \<notin> set (snd (state_of r)) \<and>
      slot (fst (state_of r)) (3, 1) = Some 31 \<and>
      blocks (fst (state_of r)) 31 = (Block cfg0 ''top'' 0 0 None)\<lparr>coord := Some (3, 1)\<rparr>"
    by auto
  from 1 2 3 b s consistent_world2 placed_world2 c 4 show ?thesis by (intro conjI)
qed

text \<open>
  Claim C10 as stated fails: a block constructed without a colour is not immune to
  \<^verbatim>\<open>clear\<close>. Four such blocks that form a square are all destroyed by \<^verbatim>\<open>clear\<close> on
  the one at \<open>(2, 2)\<close>.
\<close>

theorem default_color_cleared_counterexample:
  "blocks world5 11 = (Block cfg0 ''top'' 0 0 None)\<lparr>coord := Some (1, 1)\<rparr> \<and>
   blocks world5 21 = (Block cfg0 ''top'' 0 0 None)\<lparr>coord := Some (2, 1)\<rparr> \<and>
   blocks world5 12 = (Block cfg0 ''top'' 0 0 None)\<lparr>coord := Some (1, 2)\<rparr> \<and>
   blocks world5 22 = (Block cfg0 ''top'' 0 0 None)\<lparr>coord := Some (2, 2)\<rparr> \<and>
   consistent world5 \<and> placed world5 22 \<and>
   (\<exists>st. clear 10 22 world5 = Some (Done st)) \<and>
   destroyed_by (clear 10 22 world5) = [22, 21, 11, 12]"
proof -
  have "\<exists>st. clear 10 22 world5 = Some (Done st)"
    "destroyed_by (clear 10 22 world5) = [22, 21, 11, 12]"
    by (simp_all add: evaluation world5_blocks world5_contents)
  then show ?thesis
    using consistent_world5 placed_world5
    by (simp add: world5_blocks located_def grey_def)
qed

lemma coherent_worlds: "coherent world2" "coherent world3" "coherent world4" "coherent world5"
  unfolding coherent_def
  by (simp_all add: world2_def world3_def world4_def world5_def located_def grey_def red_def
      Block_def)

end
